theory Spec2Isabelle
  imports Main
begin

section \<open>The store: users, sessions and tokens\<close>

text \<open>
  The three relations of \<^verbatim>\<open>packages/database\<close> (schema and SQL migrations). A row is a
  record with one field per column; the prefix of a field names its table, since
  \<^verbatim>\<open>id\<close>, \<^verbatim>\<open>userId\<close>, \<^verbatim>\<open>createdAt\<close> occur in several tables. A timestamp is a number of
  milliseconds since the epoch, as JavaScript's \<^verbatim>\<open>Date\<close> counts them. A \<^typ>\<open>char\<close> stands
  for one code unit of a JavaScript string below 256, so that \<^verbatim>\<open>.length\<close> is
  \<^const>\<open>length\<close>.
\<close>

datatype user_role = FREE | PAID

datatype token_type = EMAIL | PHONE

datatype token_status = PENDING | EXPIRED

record user =
  u_id :: string
  u_name :: string
  u_firstName :: string
  u_lastName :: string
  u_email :: string
  u_password :: string
  u_emailVerified :: bool
  u_phone :: string
  u_phoneVerified :: bool
  u_role :: user_role
  u_createdAt :: int
  u_updatedAt :: int

record session =
  s_id :: string
  s_userId :: string
  s_token :: string
  s_ipAddress :: "string option"
  s_userAgent :: "string option"
  s_expiresAt :: int
  s_createdAt :: int
  s_updatedAt :: int

record token =
  t_id :: string
  t_userId :: string
  t_code :: string
  t_type :: token_type
  t_status :: token_status
  t_createdAt :: int
  t_updatedAt :: int
  t_expiresAt :: int

text \<open>
  The database is the three tables, each a list of rows in insertion order.
\<close>

record db =
  users :: "user list"
  sessions :: "session list"
  tokens :: "token list"

text \<open>
  A \<^verbatim>\<open>text\<close> or \<^verbatim>\<open>varchar\<close> value of the store holds no code unit U+0000: a statement with
  such a parameter is refused and the driver throws. The strings of a request body are
  arbitrary, so the statements that take them can throw: the lookup by email and the
  insert of a user. The other statements take identifiers of stored rows, generated
  identifiers and codes, which are text the store accepts.
\<close>

definition storable :: "string \<Rightarrow> bool" where
  "storable s \<longleftrightarrow> CHR 0x00 \<notin> set s"

text \<open>
  An \<^verbatim>\<open>INSERT\<close> is refused by the store when it breaks a constraint of the migration:
  the primary key \<^verbatim>\<open>id\<close>, \<^verbatim>\<open>users_email_unique\<close>, \<^verbatim>\<open>users_phone_unique\<close>,
  \<^verbatim>\<open>sessions_token_unique\<close>, \<^verbatim>\<open>tokens_code_unique\<close>, and the foreign keys from
  \<^verbatim>\<open>user_id\<close> to \<^verbatim>\<open>users.id\<close>. The driver then throws; here the insert returns \<^const>\<open>None\<close>
  and the caller takes its \<^verbatim>\<open>catch\<close> branch.
\<close>

definition insert_user :: "user \<Rightarrow> db \<Rightarrow> db option" where
  "insert_user u d =
     (if \<not> (storable (u_id u) \<and> storable (u_name u) \<and> storable (u_firstName u)
              \<and> storable (u_lastName u) \<and> storable (u_email u) \<and> storable (u_password u)
              \<and> storable (u_phone u))
         \<or> u_id u \<in> set (map u_id (users d))
         \<or> u_email u \<in> set (map u_email (users d))
         \<or> u_phone u \<in> set (map u_phone (users d))
      then None
      else Some (d\<lparr>users := users d @ [u]\<rparr>))"

definition insert_session :: "session \<Rightarrow> db \<Rightarrow> db option" where
  "insert_session s d =
     (if s_id s \<in> set (map s_id (sessions d))
         \<or> s_token s \<in> set (map s_token (sessions d))
         \<or> s_userId s \<notin> set (map u_id (users d))
      then None
      else Some (d\<lparr>sessions := sessions d @ [s]\<rparr>))"

definition insert_token :: "token \<Rightarrow> db \<Rightarrow> db option" where
  "insert_token k d =
     (if t_id k \<in> set (map t_id (tokens d))
         \<or> t_code k \<in> set (map t_code (tokens d))
         \<or> t_userId k \<notin> set (map u_id (users d))
      then None
      else Some (d\<lparr>tokens := tokens d @ [k]\<rparr>))"

text \<open>
  The queries of the controller. \<^verbatim>\<open>select ... limit 1\<close> is the first matching row.
  The lookup by email takes its parameter from the request body: it is refused, with
  result \<^const>\<open>None\<close>, when the email is not text of the store.
\<close>

definition find_user_by_email :: "string \<Rightarrow> db \<Rightarrow> user option" where
  "find_user_by_email e d = find (\<lambda>u. u_email u = e) (users d)"

definition select_user_by_email :: "string \<Rightarrow> db \<Rightarrow> user option option" where
  "select_user_by_email e d = (if storable e then Some (find_user_by_email e d) else None)"

definition find_user_by_id :: "string \<Rightarrow> db \<Rightarrow> user option" where
  "find_user_by_id i d = find (\<lambda>u. u_id u = i) (users d)"

text \<open>
  The predicate of the two token lookups: owner, type \<^verbatim>\<open>EMAIL\<close> or \<^verbatim>\<open>PHONE\<close>, status
  \<^verbatim>\<open>PENDING\<close> and \<^verbatim>\<open>expiresAt\<close> strictly after the instant given.
\<close>

definition active :: "string \<Rightarrow> token_type \<Rightarrow> int \<Rightarrow> token \<Rightarrow> bool" where
  "active uid ty now k \<longleftrightarrow>
     t_userId k = uid \<and> t_type k = ty \<and> t_status k = PENDING \<and> now < t_expiresAt k"

definition find_valid_token :: "string \<Rightarrow> int \<Rightarrow> db \<Rightarrow> token option" where
  "find_valid_token uid now d = find (active uid EMAIL now) (tokens d)"

definition find_valid_token_with_code :: "string \<Rightarrow> string \<Rightarrow> int \<Rightarrow> db \<Rightarrow> token option" where
  "find_valid_token_with_code uid c now d =
     find (\<lambda>k. t_code k = c \<and> active uid EMAIL now k) (tokens d)"

text \<open>
  \<^verbatim>\<open>update tokens set status = 'EXPIRED' where user_id = uid and type = 'EMAIL'\<close>: the
  statement of both issuing handlers. No column but \<^verbatim>\<open>status\<close> changes (the schema has
  no update hook for \<^verbatim>\<open>updated_at\<close>).
\<close>

definition expire_email_tokens :: "string \<Rightarrow> db \<Rightarrow> db" where
  "expire_email_tokens uid d =
     d\<lparr>tokens :=
         map (\<lambda>k. if t_userId k = uid \<and> t_type k = EMAIL then k\<lparr>t_status := EXPIRED\<rparr> else k)
           (tokens d)\<rparr>"

text \<open>The three updates of a successful verification, in the order of the handler.\<close>

definition expire_token_by_id :: "string \<Rightarrow> db \<Rightarrow> db" where
  "expire_token_by_id i d =
     d\<lparr>tokens := map (\<lambda>k. if t_id k = i then k\<lparr>t_status := EXPIRED\<rparr> else k) (tokens d)\<rparr>"

definition set_email_verified :: "string \<Rightarrow> db \<Rightarrow> db" where
  "set_email_verified uid d =
     d\<lparr>users := map (\<lambda>u. if u_id u = uid then u\<lparr>u_emailVerified := True\<rparr> else u) (users d)\<rparr>"

definition expire_pending_email_tokens :: "string \<Rightarrow> db \<Rightarrow> db" where
  "expire_pending_email_tokens uid d =
     d\<lparr>tokens :=
         map (\<lambda>k. if t_userId k = uid \<and> t_type k = EMAIL \<and> t_status k = PENDING
                   then k\<lparr>t_status := EXPIRED\<rparr> else k)
           (tokens d)\<rparr>"

text \<open>\<^verbatim>\<open>delete from sessions where user_id = uid and expires_at < now\<close>, of sign-in.\<close>

definition delete_expired_sessions :: "string \<Rightarrow> int \<Rightarrow> db \<Rightarrow> db" where
  "delete_expired_sessions uid now d =
     d\<lparr>sessions := filter (\<lambda>s. \<not> (s_userId s = uid \<and> s_expiresAt s < now)) (sessions d)\<rparr>"


section \<open>Requests, responses and the environment of a call\<close>

text \<open>
  What a handler reads besides the store and the request body: the clock, the random
  sources, bcrypt and the outcome of the mail service. \<^verbatim>\<open>Date.now()\<close> where an
  \<^verbatim>\<open>expiresAt\<close> is computed and \<^verbatim>\<open>new Date()\<close> inside a query are two readings of the
  clock and kept apart; \<^verbatim>\<open>db_now\<close> is the store's \<^verbatim>\<open>now()\<close> that fills \<^verbatim>\<open>created_at\<close> and
  \<^verbatim>\<open>updated_at\<close>. The four identifiers are the hexadecimal strings that
  \<^verbatim>\<open>randomBytes(n).toString('hex')\<close> returned in this call, \<^verbatim>\<open>random_ints i\<close> is the
  entropy behind the \<open>i\<close>-th call of \<^verbatim>\<open>randomInt\<close>.
\<close>

record env =
  date_now :: int
  new_date :: int
  db_now :: int
  random_userId :: string
  random_sessionId :: string
  random_sessionToken :: string
  random_tokenId :: string
  random_ints :: "nat \<Rightarrow> nat"
  bcrypt_hash :: "string \<Rightarrow> string"
  bcrypt_compare :: "string \<Rightarrow> string \<Rightarrow> bool"
  send_fails :: bool

text \<open>
  The request as the handlers see it: the peer address, the \<^verbatim>\<open>User-Agent\<close> header, and
  \<^verbatim>\<open>req.user\<close>, the user object that the authentication middleware attached (the
  middleware is not part of the sources, so the object is an input).
\<close>

record request =
  req_ip :: "string option"
  req_userAgent :: "string option"
  req_user :: "user option"

text \<open>The public projection of a user row that every user payload lists.\<close>

record user_view =
  v_id :: string
  v_firstName :: string
  v_lastName :: string
  v_email :: string
  v_phone :: string
  v_role :: user_role
  v_emailVerified :: bool
  v_phoneVerified :: bool

definition public_user :: "user \<Rightarrow> user_view" where
  "public_user u =
     \<lparr>v_id = u_id u, v_firstName = u_firstName u, v_lastName = u_lastName u,
      v_email = u_email u, v_phone = u_phone u, v_role = u_role u,
      v_emailVerified = u_emailVerified u, v_phoneVerified = u_phoneVerified u\<rparr>"

text \<open>
  A token payload lists all eight columns of the row (\<^verbatim>\<open>id\<close>, \<^verbatim>\<open>userId\<close>, \<^verbatim>\<open>code\<close>,
  \<^verbatim>\<open>type\<close>, \<^verbatim>\<open>status\<close>, \<^verbatim>\<open>createdAt\<close>, \<^verbatim>\<open>updatedAt\<close>, \<^verbatim>\<open>expiresAt\<close>), so it carries the row.
  The cookie is the pair of the value of \<^verbatim>\<open>sessionToken\<close> and its \<^verbatim>\<open>maxAge\<close>.
\<close>

datatype payload = UserData user_view | TokenData token

record response =
  status :: nat
  success :: bool
  message :: "string option"
  data :: "payload option"
  cookie :: "(string \<times> int) option"

definition failure :: "nat \<Rightarrow> string \<Rightarrow> response" where
  "failure code msg =
     \<lparr>status = code, success = False, message = Some msg, data = None, cookie = None\<rparr>"

definition bad_request :: response where
  "bad_request = failure 400 ''Bad Request''"

definition unauthorized :: response where
  "unauthorized = failure 401 ''Unauthorized''"

definition conflict :: response where
  "conflict = failure 409 ''Conflict''"

definition internal_server_error :: response where
  "internal_server_error = failure 500 ''Internal Server Error''"

definition user_ok :: "nat \<Rightarrow> string option \<Rightarrow> user \<Rightarrow> (string \<times> int) option \<Rightarrow> response" where
  "user_ok code msg u c =
     \<lparr>status = code, success = True, message = msg, data = Some (UserData (public_user u)),
      cookie = c\<rparr>"

definition token_ok :: "string option \<Rightarrow> token \<Rightarrow> response" where
  "token_ok msg k =
     \<lparr>status = 200, success = True, message = msg, data = Some (TokenData k), cookie = None\<rparr>"

definition plain_ok :: response where
  "plain_ok = \<lparr>status = 200, success = True, message = None, data = None, cookie = None\<rparr>"

text \<open>
  The message handed to \<^verbatim>\<open>resend.emails.send\<close>: sender, recipient, subject, and the two
  values interpolated into the HTML template (the fixed markup around them is left out).
\<close>

record email =
  mail_from :: string
  mail_to :: string
  mail_subject :: string
  mail_firstName :: string
  mail_code :: string


section \<open>Helpers of the controller\<close>

definition characters :: string where
  "characters = ''ABCDEFGHIJKLMNOPQRSTUVWXYZ0123456789''"

text \<open>
  \<^verbatim>\<open>randomInt(min, max)\<close> of Node's \<^verbatim>\<open>crypto\<close> returns an integer \<open>n\<close> with
  \<open>min \<le> n < max\<close>; the entropy it draws from is its first argument here.
\<close>

definition randomInt :: "nat \<Rightarrow> nat \<Rightarrow> nat \<Rightarrow> nat" where
  "randomInt entropy lo hi = lo + entropy mod (hi - lo)"

text \<open>The loop of \<^verbatim>\<open>generateCode\<close>: six rounds, each appending one drawn character.\<close>

definition generateCode :: "(nat \<Rightarrow> nat) \<Rightarrow> string" where
  "generateCode rnd =
     foldl (\<lambda>result i. result @ [characters ! randomInt (rnd i) 0 (length characters)])
       [] [0..<6]"

text \<open>
  \<^verbatim>\<open>/^[^\s@]+@[^\s@]+\.[^\s@]+$/\<close>: a local part, one \<^verbatim>\<open>@\<close>, and a domain with a dot that
  is neither its first nor its last character; no white space and no second \<^verbatim>\<open>@\<close>
  anywhere. White space is what \<^verbatim>\<open>\s\<close> matches among the code units below 256.
\<close>

definition is_space :: "char \<Rightarrow> bool" where
  "is_space c \<longleftrightarrow> (of_char c :: nat) \<in> {9, 10, 11, 12, 13, 32, 160}"

definition emailRegex_test :: "string \<Rightarrow> bool" where
  "emailRegex_test s =
     (let ok = (\<lambda>c. \<not> is_space c \<and> c \<noteq> CHR ''@'');
          local_part = takeWhile (\<lambda>c. c \<noteq> CHR ''@'') s;
          rest = dropWhile (\<lambda>c. c \<noteq> CHR ''@'') s
      in local_part \<noteq> [] \<and> list_all ok local_part \<and>
         (case rest of
            [] \<Rightarrow> False
          | _ # domain \<Rightarrow>
              list_all ok domain \<and> 3 \<le> length domain \<and> CHR ''.'' \<in> set (butlast (tl domain))))"

text \<open>\<^verbatim>\<open>/^[A-Za-z0-9]+$/\<close> and \<^verbatim>\<open>toUpperCase\<close>, which the handler applies to a code that
  passed this test, so to letters and digits of ASCII only.\<close>

definition is_alnum :: "char \<Rightarrow> bool" where
  "is_alnum c \<longleftrightarrow>
     (let n = (of_char c :: nat)
      in (65 \<le> n \<and> n \<le> 90) \<or> (97 \<le> n \<and> n \<le> 122) \<or> (48 \<le> n \<and> n \<le> 57))"

definition alnum_test :: "string \<Rightarrow> bool" where
  "alnum_test s \<longleftrightarrow> s \<noteq> [] \<and> list_all is_alnum s"

definition toUpperCase :: "string \<Rightarrow> string" where
  "toUpperCase s =
     map (\<lambda>c. let n = (of_char c :: nat)
               in if 97 \<le> n \<and> n \<le> 122 then char_of (n - 32) else c) s"

text \<open>The row that both issuing handlers insert, and the message they send.\<close>

definition new_token :: "env \<Rightarrow> string \<Rightarrow> token" where
  "new_token env uid =
     \<lparr>t_id = random_tokenId env, t_userId = uid, t_code = generateCode (random_ints env),
      t_type = EMAIL, t_status = PENDING, t_createdAt = db_now env, t_updatedAt = db_now env,
      t_expiresAt = date_now env + 10 * 60 * 1000\<rparr>"

definition verification_mail :: "string \<Rightarrow> user \<Rightarrow> string \<Rightarrow> email" where
  "verification_mail subject currentUser verificationCode =
     \<lparr>mail_from = ''Kleroteria <onboarding@resend.dev>'',
      mail_to = ''bigtexascompsci@proton.me'',
      mail_subject = subject,
      mail_firstName = u_firstName currentUser,
      mail_code = verificationCode\<rparr>"

definition new_session :: "env \<Rightarrow> request \<Rightarrow> string \<Rightarrow> int \<Rightarrow> session" where
  "new_session env req uid expiresAt =
     \<lparr>s_id = random_sessionId env, s_userId = uid, s_token = random_sessionToken env,
      s_ipAddress = req_ip req,
      s_userAgent = (case req_userAgent req of
                       None \<Rightarrow> None
                     | Some ua \<Rightarrow> if ua = [] then None else Some ua),
      s_expiresAt = expiresAt, s_createdAt = db_now env, s_updatedAt = db_now env\<rparr>"


section \<open>The handlers\<close>

text \<open>
  Each handler maps the store to its response and the store it leaves. A statement that
  throws ends the handler in its \<^verbatim>\<open>catch\<close> branch with the writes made so far kept:
  no handler opens a transaction. An insert that succeeds returns its row, so the guards
  \<^verbatim>\<open>if (!newUser)\<close> and \<^verbatim>\<open>if (!newToken)\<close> behind it never fire and have no branch here.
  \<^verbatim>\<open>send_fails\<close> stands for both failures of the mail service, the returned \<^verbatim>\<open>error\<close> and
  the thrown one: the handler answers both with the same 500 response. A failure of the
  store other than a refused insert is not modelled.
\<close>

definition signUp ::
  "env \<Rightarrow> request \<Rightarrow> string \<Rightarrow> string \<Rightarrow> string \<Rightarrow> string \<Rightarrow> string \<Rightarrow> db \<Rightarrow> response \<times> db"
where
  "signUp env req firstName lastName email phone password d =
     (if firstName = [] \<or> lastName = [] \<or> email = [] \<or> phone = [] \<or> password = []
      then (bad_request, d)
      else if \<not> emailRegex_test email then (bad_request, d)
      else if length password < 6 then (bad_request, d)
      else
        (case select_user_by_email email d of
           None \<Rightarrow> (internal_server_error, d)
         | Some (Some existingUser) \<Rightarrow> (conflict, d)
         | Some None \<Rightarrow>
             let userId = random_userId env;
                 newUser =
                   \<lparr>u_id = userId, u_name = firstName @ '' '' @ lastName,
                    u_firstName = firstName, u_lastName = lastName, u_email = email,
                    u_password = bcrypt_hash env password, u_emailVerified = False,
                    u_phone = phone, u_phoneVerified = False, u_role = FREE,
                    u_createdAt = db_now env, u_updatedAt = db_now env\<rparr>
             in (case insert_user newUser d of
                   None \<Rightarrow> (internal_server_error, d)
                 | Some d1 \<Rightarrow>
                     let expiresAt = date_now env + 7 * 24 * 60 * 60 * 1000
                     in (case insert_session (new_session env req userId expiresAt) d1 of
                           None \<Rightarrow> (internal_server_error, d1)
                         | Some d2 \<Rightarrow>
                             (user_ok 201 (Some ''User created successfully'') newUser
                                (Some (random_sessionToken env, 7 * 24 * 60 * 60 * 1000)),
                              d2)))))"

definition signIn ::
  "env \<Rightarrow> request \<Rightarrow> string \<Rightarrow> string \<Rightarrow> bool \<Rightarrow> db \<Rightarrow> response \<times> db"
where
  "signIn env req email password rememberMe d =
     (if email = [] \<or> password = [] then (bad_request, d)
      else
        (case select_user_by_email email d of
           None \<Rightarrow> (internal_server_error, d)
         | Some None \<Rightarrow> (unauthorized, d)
         | Some (Some user) \<Rightarrow>
             if \<not> bcrypt_compare env password (u_password user) then (unauthorized, d)
             else
               let sessionDuration =
                     (if rememberMe then 7 * 24 * 60 * 60 * 1000 else 24 * 60 * 60 * 1000);
                   expiresAt = date_now env + sessionDuration;
                   d1 = delete_expired_sessions (u_id user) (new_date env) d
               in (case insert_session (new_session env req (u_id user) expiresAt) d1 of
                     None \<Rightarrow> (internal_server_error, d1)
                   | Some d2 \<Rightarrow>
                       (user_ok 200 (Some ''Signed in successfully'') user
                          (Some (random_sessionToken env, sessionDuration)),
                        d2))))"

text \<open>\<^verbatim>\<open>getCurrentUser\<close> only reads the store.\<close>

definition getCurrentUser :: "request \<Rightarrow> db \<Rightarrow> response" where
  "getCurrentUser req d =
     (case req_user req of
        None \<Rightarrow> unauthorized
      | Some user \<Rightarrow>
          (case find_user_by_id (u_id user) d of
             None \<Rightarrow> unauthorized
           | Some currentUser \<Rightarrow> user_ok 200 None currentUser None))"

text \<open>
  The issuing handlers return, besides response and store, the message they handed to the
  mail service, if they got that far.
\<close>

definition sendEmailVerificationCode :: "env \<Rightarrow> request \<Rightarrow> db \<Rightarrow> response \<times> db \<times> email option"
where
  "sendEmailVerificationCode env req d =
     (case req_user req of
        None \<Rightarrow> (unauthorized, d, None)
      | Some user \<Rightarrow>
          (case find_user_by_id (u_id user) d of
             None \<Rightarrow> (unauthorized, d, None)
           | Some currentUser \<Rightarrow>
               (case find_valid_token (u_id currentUser) (new_date env) d of
                  Some existingValidToken \<Rightarrow> (token_ok None existingValidToken, d, None)
                | None \<Rightarrow>
                    let newToken = new_token env (u_id currentUser);
                        d1 = expire_email_tokens (u_id currentUser) d
                    in (case insert_token newToken d1 of
                          None \<Rightarrow> (internal_server_error, d1, None)
                        | Some d2 \<Rightarrow>
                            let mail = verification_mail ''Email Verification Code''
                                         currentUser (t_code newToken)
                            in if send_fails env
                               then (internal_server_error, d2, Some mail)
                               else (token_ok (Some ''Verification code sent successfully'')
                                       newToken, d2, Some mail)))))"

definition resendEmailVerificationCode ::
  "env \<Rightarrow> request \<Rightarrow> db \<Rightarrow> response \<times> db \<times> email option"
where
  "resendEmailVerificationCode env req d =
     (case req_user req of
        None \<Rightarrow> (unauthorized, d, None)
      | Some user \<Rightarrow>
          (case find_user_by_id (u_id user) d of
             None \<Rightarrow> (unauthorized, d, None)
           | Some currentUser \<Rightarrow>
               let newToken = new_token env (u_id currentUser);
                   d1 = expire_email_tokens (u_id currentUser) d
               in (case insert_token newToken d1 of
                     None \<Rightarrow> (internal_server_error, d1, None)
                   | Some d2 \<Rightarrow>
                       let mail = verification_mail ''Email Verification Code - Resent''
                                    currentUser (t_code newToken)
                       in if send_fails env
                          then (internal_server_error, d2, Some mail)
                          else (token_ok None newToken, d2, Some mail))))"

definition verifyEmailVerificationCode :: "env \<Rightarrow> request \<Rightarrow> string \<Rightarrow> db \<Rightarrow> response \<times> db"
where
  "verifyEmailVerificationCode env req code d =
     (if code = [] then (bad_request, d)
      else if length code \<noteq> 6 \<or> \<not> alnum_test code then (bad_request, d)
      else
        (case req_user req of
           None \<Rightarrow> (unauthorized, d)
         | Some user \<Rightarrow>
             (case find_user_by_id (u_id user) d of
                None \<Rightarrow> (unauthorized, d)
              | Some currentUser \<Rightarrow>
                  (case find_valid_token_with_code (u_id currentUser) (toUpperCase code)
                          (new_date env) d of
                     None \<Rightarrow> (internal_server_error, d)
                   | Some validToken \<Rightarrow>
                       (plain_ok,
                        expire_pending_email_tokens (u_id currentUser)
                          (set_email_verified (u_id currentUser)
                             (expire_token_by_id (t_id validToken) d)))))))"


section \<open>The invariant of the token table and the statements of an issuance\<close>

text \<open>
  At the instant \<open>now\<close>, no owner and type has two tokens that are \<^verbatim>\<open>PENDING\<close> and not yet
  past \<^verbatim>\<open>expiresAt\<close>. It is enough to look at the owners and types of the stored rows.
\<close>

definition at_most_one_pending :: "db \<Rightarrow> int \<Rightarrow> bool" where
  "at_most_one_pending d now \<longleftrightarrow>
     list_all (\<lambda>k. length (filter (active (t_userId k) (t_type k) now) (tokens d)) \<le> 1)
       (tokens d)"

text \<open>
  An issuance writes with two awaited statements, the \<^verbatim>\<open>update\<close> that expires and the
  \<^verbatim>\<open>insert\<close>. Each is atomic in the store; between them the handler is suspended and the
  statements of another request may run. A refused insert ends its handler and leaves the
  store as it is. A schedule is a list of statements, run in order; the schedules of two
  requests in flight are the interleavings of their statement lists.
\<close>

datatype statement = ExpireEmailTokens string | InsertToken token

fun exec :: "statement \<Rightarrow> db \<Rightarrow> db" where
  "exec (ExpireEmailTokens uid) d = expire_email_tokens uid d"
| "exec (InsertToken k) d = (case insert_token k d of None \<Rightarrow> d | Some d' \<Rightarrow> d')"

definition run :: "statement list \<Rightarrow> db \<Rightarrow> db" where
  "run stmts d = fold exec stmts d"

definition issuance :: "env \<Rightarrow> string \<Rightarrow> statement list" where
  "issuance env uid = [ExpireEmailTokens uid, InsertToken (new_token env uid)]"

fun interleave :: "'a list \<Rightarrow> 'a list \<Rightarrow> 'a list list" where
  "interleave [] ys = [ys]"
| "interleave xs [] = [xs]"
| "interleave (x # xs) (y # ys) =
     map ((#) x) (interleave xs (y # ys)) @ map ((#) y) (interleave (x # xs) ys)"


section \<open>The outcomes of the specification\<close>

text \<open>
  The specification names the results of an operation: success, \<^verbatim>\<open>ValidationError\<close>,
  \<^verbatim>\<open>Conflict\<close>, \<^verbatim>\<open>Unauthorized\<close>, \<^verbatim>\<open>Rejected\<close> (a verification code that is invalid, expired
  or wrong) and \<^verbatim>\<open>Internal\<close> (an unexpected failure of the store or of hashing). This
  definition follows the words of the specification, not the controller: it reads a
  response of the controller as the outcome it stands for. The controller has four
  failure responses, 400, 401, 409 and 500; the last is the one of every \<^verbatim>\<open>catch\<close> branch.
  No response of the controller stands for \<^verbatim>\<open>Rejected\<close>.
\<close>

datatype outcome = Ok | ValidationError | Conflict | Unauthorized | Rejected | Internal

definition spec_outcome :: "response \<Rightarrow> outcome option" where
  "spec_outcome r =
     (if success r then Some Ok
      else if r = bad_request then Some ValidationError
      else if r = unauthorized then Some Unauthorized
      else if r = conflict then Some Conflict
      else if r = internal_server_error then Some Internal
      else None)"


section \<open>Concrete stores and calls\<close>

text \<open>
  A user, a request of hers and an environment, used to run the handlers on concrete
  inputs. \<open>env_at now tag shift\<close> reads the clock as \<open>now\<close>, derives its identifiers from
  \<open>tag\<close> and its random integers from \<open>shift\<close>; bcrypt is replaced by tagging.
\<close>

definition alice :: user where
  "alice =
     \<lparr>u_id = ''a1'', u_name = ''A B'', u_firstName = ''A'', u_lastName = ''B'',
      u_email = ''a@x.com'', u_password = ''h:secret1'', u_emailVerified = False,
      u_phone = ''+1555'', u_phoneVerified = False, u_role = FREE,
      u_createdAt = 0, u_updatedAt = 0\<rparr>"

definition env_at :: "int \<Rightarrow> string \<Rightarrow> nat \<Rightarrow> env" where
  "env_at now tag shift =
     \<lparr>date_now = now, new_date = now, db_now = now,
      random_userId = ''u'' @ tag, random_sessionId = ''s'' @ tag,
      random_sessionToken = ''st'' @ tag, random_tokenId = ''k'' @ tag,
      random_ints = (\<lambda>i. i + shift),
      bcrypt_hash = (\<lambda>p. ''h:'' @ p),
      bcrypt_compare = (\<lambda>p h. h = ''h:'' @ p),
      send_fails = False\<rparr>"

definition as_alice :: request where
  "as_alice =
     \<lparr>req_ip = Some ''10.0.0.1'', req_userAgent = Some ''curl'', req_user = Some alice\<rparr>"

definition db_alice :: db where
  "db_alice = \<lparr>users = [alice], sessions = [], tokens = []\<rparr>"

definition old_token :: token where
  "old_token =
     \<lparr>t_id = ''k0'', t_userId = ''a1'', t_code = ''OLD123'', t_type = EMAIL,
      t_status = PENDING, t_createdAt = 0, t_updatedAt = 0, t_expiresAt = 600000\<rparr>"

definition db_pending :: db where
  "db_pending = \<lparr>users = [alice], sessions = [], tokens = [old_token]\<rparr>"

text \<open>
  Two resend requests of the same user in flight: both updates run before either insert.
\<close>

definition racing_schedule :: "statement list" where
  "racing_schedule =
     [ExpireEmailTokens ''a1'', ExpireEmailTokens ''a1'',
      InsertToken (new_token (env_at 1000 ''1'' 0) ''a1''),
      InsertToken (new_token (env_at 1001 ''2'' 6) ''a1'')]"


text \<open>Further stores and a request without a session.\<close>

definition alice_verified :: user where
  "alice_verified = alice\<lparr>u_emailVerified := True\<rparr>"

definition db_alice_verified :: db where
  "db_alice_verified = \<lparr>users = [alice_verified], sessions = [], tokens = []\<rparr>"

definition db_empty :: db where
  "db_empty = \<lparr>users = [], sessions = [], tokens = []\<rparr>"

definition nul_email :: string where
  "nul_email = [CHR ''n'', CHR 0x00]"

definition anonymous :: request where
  "anonymous = \<lparr>req_ip = Some ''10.0.0.2'', req_userAgent = None, req_user = None\<rparr>"


text \<open>
  A token left \<^verbatim>\<open>PENDING\<close> whose \<^verbatim>\<open>expiresAt\<close> has passed at time 1000, and a token whose code
  is the one that the random integers 0 to 5 generate.
\<close>

definition elapsed_token :: token where
  "elapsed_token =
     \<lparr>t_id = ''k0'', t_userId = ''a1'', t_code = ''OLD123'', t_type = EMAIL,
      t_status = PENDING, t_createdAt = 0, t_updatedAt = 0, t_expiresAt = 500\<rparr>"

definition db_elapsed :: db where
  "db_elapsed = \<lparr>users = [alice], sessions = [], tokens = [elapsed_token]\<rparr>"

definition colliding_token :: token where
  "colliding_token =
     \<lparr>t_id = ''k0'', t_userId = ''a1'', t_code = ''ABCDEF'', t_type = EMAIL,
      t_status = PENDING, t_createdAt = 0, t_updatedAt = 0, t_expiresAt = 600000\<rparr>"

definition db_collision :: db where
  "db_collision = \<lparr>users = [alice], sessions = [], tokens = [colliding_token]\<rparr>"


section \<open>Properties of the store operations\<close>

subsection \<open>Expiring and inserting tokens\<close>


lemma filter_active_expire_same:
  "filter (active u EMAIL now)
     (map (\<lambda>k. if t_userId k = u \<and> t_type k = EMAIL then k\<lparr>t_status := EXPIRED\<rparr> else k) ks)
   = []"
  by (induction ks) (auto simp: active_def)

lemma filter_active_expire_other:
  "uid \<noteq> u \<or> ty \<noteq> EMAIL \<Longrightarrow>
   filter (active uid ty now)
     (map (\<lambda>k. if t_userId k = u \<and> t_type k = EMAIL then k\<lparr>t_status := EXPIRED\<rparr> else k) ks)
   = filter (active uid ty now) ks"
  by (induction ks) (auto simp: active_def)

text \<open>The invariant, said for every owner and type.\<close>

lemma at_most_one_pending_iff:
  "at_most_one_pending d now \<longleftrightarrow>
     (\<forall>uid ty. length (filter (active uid ty now) (tokens d)) \<le> 1)"
proof
  assume inv: "at_most_one_pending d now"
  show "\<forall>uid ty. length (filter (active uid ty now) (tokens d)) \<le> 1"
  proof (intro allI)
    fix uid ty
    show "length (filter (active uid ty now) (tokens d)) \<le> 1"
    proof (cases "filter (active uid ty now) (tokens d)")
      case Nil
      then show ?thesis by simp
    next
      case (Cons k ks)
      then have "k \<in> set (filter (active uid ty now) (tokens d))" by simp
      then have k: "k \<in> set (tokens d)" "active uid ty now k" by auto
      then have "t_userId k = uid" "t_type k = ty" by (auto simp: active_def)
      with inv k(1) show ?thesis
        by (auto simp: at_most_one_pending_def list_all_iff)
    qed
  qed
next
  assume "\<forall>uid ty. length (filter (active uid ty now) (tokens d)) \<le> 1"
  then show "at_most_one_pending d now"
    by (simp add: at_most_one_pending_def list_all_iff)
qed

text \<open>The codes that two of the concrete environments generate.\<close>


lemma generateCode_identity: "generateCode (\<lambda>i. i) = ''ABCDEF''"
  by (simp add: generateCode_def characters_def randomInt_def upt_rec)

lemma generateCode_shift6: "generateCode (\<lambda>i. i + 6) = ''GHIJKL''"
  by (simp add: generateCode_def characters_def randomInt_def upt_rec)

text \<open>
  The update of an issuance leaves the user without an active \<^verbatim>\<open>EMAIL\<close> token and every
  other owner and type as it was; the insert adds one token of the user.
\<close>


lemma expire_preserves_invariant:
  assumes "at_most_one_pending d now"
  shows "at_most_one_pending (expire_email_tokens u d) now"
proof -
  have "length (filter (active uid ty now) (tokens (expire_email_tokens u d))) \<le> 1" for uid ty
  proof (cases "uid = u \<and> ty = EMAIL")
    case True
    then show ?thesis
      by (simp add: expire_email_tokens_def filter_active_expire_same)
  next
    case False
    then have "filter (active uid ty now) (tokens (expire_email_tokens u d)) =
               filter (active uid ty now) (tokens d)"
      by (simp add: expire_email_tokens_def filter_active_expire_other)
    with assms show ?thesis
      by (simp add: at_most_one_pending_iff)
  qed
  then show ?thesis
    by (simp add: at_most_one_pending_iff)
qed

lemma issue_preserves_invariant:
  assumes "at_most_one_pending d now"
    and "insert_token k (expire_email_tokens u d) = Some d'"
    and "t_userId k = u" and "t_type k = EMAIL"
  shows "at_most_one_pending d' now"
proof -
  let ?d1 = "expire_email_tokens u d"
  from assms(2) have toks: "tokens d' = tokens ?d1 @ [k]"
    by (auto simp: insert_token_def split: if_splits)
  have "length (filter (active uid ty now) (tokens d')) \<le> 1" for uid ty
  proof (cases "uid = u \<and> ty = EMAIL")
    case True
    then show ?thesis
      by (simp add: toks expire_email_tokens_def filter_active_expire_same)
  next
    case False
    then have "\<not> active uid ty now k"
      using assms(3,4) by (auto simp: active_def)
    moreover from False have "filter (active uid ty now) (tokens ?d1) =
               filter (active uid ty now) (tokens d)"
      by (simp add: expire_email_tokens_def filter_active_expire_other)
    ultimately show ?thesis
      using assms(1) by (simp add: toks at_most_one_pending_iff)
  qed
  then show ?thesis
    by (simp add: at_most_one_pending_iff)
qed

lemma run_issuance:
  "run (issuance env u) d =
     (case insert_token (new_token env u) (expire_email_tokens u d) of
        None \<Rightarrow> expire_email_tokens u d
      | Some d' \<Rightarrow> d')"
  by (simp add: run_def issuance_def)

lemma run_issuance_preserves:
  assumes "at_most_one_pending d now"
  shows "at_most_one_pending (run (issuance env u) d) now"
proof (cases "insert_token (new_token env u) (expire_email_tokens u d)")
  case None
  then show ?thesis
    using assms by (simp add: run_issuance expire_preserves_invariant)
next
  case (Some d')
  then have "at_most_one_pending d' now"
    using issue_preserves_invariant[OF assms Some] by (simp add: new_token_def)
  with Some show ?thesis by (simp add: run_issuance)
qed

subsection \<open>The store that an issuing handler leaves\<close>


lemma find_user_by_id_id: "find_user_by_id i d = Some u \<Longrightarrow> u_id u = i"
  by (auto simp: find_user_by_id_def find_Some_iff)

lemma resend_store:
  "fst (snd (resendEmailVerificationCode env req d)) =
     (case req_user req of
        None \<Rightarrow> d
      | Some ru \<Rightarrow> (case find_user_by_id (u_id ru) d of
                     None \<Rightarrow> d
                   | Some cu \<Rightarrow> run (issuance env (u_id ru)) d))"
  by (auto simp: resendEmailVerificationCode_def run_issuance Let_def
      dest: find_user_by_id_id split: option.splits)

lemma send_store:
  "fst (snd (sendEmailVerificationCode env req d)) =
     (case req_user req of
        None \<Rightarrow> d
      | Some ru \<Rightarrow> (case find_user_by_id (u_id ru) d of
                     None \<Rightarrow> d
                   | Some cu \<Rightarrow>
                      (case find_valid_token (u_id ru) (new_date env) d of
                         Some k \<Rightarrow> d
                       | None \<Rightarrow> run (issuance env (u_id ru)) d)))"
  by (auto simp: sendEmailVerificationCode_def run_issuance Let_def
      dest: find_user_by_id_id split: option.splits)

subsection \<open>The handlers on the concrete stores\<close>


lemma env_at_sel:
  "date_now (env_at n t s) = n" "new_date (env_at n t s) = n" "db_now (env_at n t s) = n"
  "random_userId (env_at n t s) = ''u'' @ t" "random_sessionId (env_at n t s) = ''s'' @ t"
  "random_sessionToken (env_at n t s) = ''st'' @ t" "random_tokenId (env_at n t s) = ''k'' @ t"
  "random_ints (env_at n t s) = (\<lambda>i. i + s)"
  "bcrypt_hash (env_at n t s) = (\<lambda>p. ''h:'' @ p)"
  "bcrypt_compare (env_at n t s) = (\<lambda>p h. h = ''h:'' @ p)"
  "send_fails (env_at n t s) = False"
  by (simp_all add: env_at_def)

lemma new_token_1: "new_token (env_at 1000 ''1'' 0) ''a1'' =
   \<lparr>t_id = ''k1'', t_userId = ''a1'', t_code = ''ABCDEF'', t_type = EMAIL,
      t_status = PENDING, t_createdAt = 1000, t_updatedAt = 1000, t_expiresAt = 601000\<rparr>"
  by (simp add: new_token_def env_at_sel generateCode_identity)

lemma new_token_2: "new_token (env_at 1001 ''2'' 6) ''a1'' =
   \<lparr>t_id = ''k2'', t_userId = ''a1'', t_code = ''GHIJKL'', t_type = EMAIL,
      t_status = PENDING, t_createdAt = 1001, t_updatedAt = 1001, t_expiresAt = 601001\<rparr>"
  by (simp add: new_token_def env_at_sel generateCode_shift6)

lemma resend_on_pending:
  "resendEmailVerificationCode (env_at 1000 ''1'' 0) as_alice db_pending =
     (token_ok None (new_token (env_at 1000 ''1'' 0) ''a1''),
      \<lparr>users = [alice], sessions = [],
       tokens = [old_token\<lparr>t_status := EXPIRED\<rparr>, new_token (env_at 1000 ''1'' 0) ''a1'']\<rparr>,
      Some (verification_mail ''Email Verification Code - Resent'' alice ''ABCDEF''))"
  by (simp add: resendEmailVerificationCode_def as_alice_def db_pending_def find_user_by_id_def
      alice_def expire_email_tokens_def old_token_def insert_token_def new_token_1
      env_at_sel Let_def)

subsection \<open>Lookups\<close>


lemma filter_at_most_one_unique:
  "length (filter P xs) \<le> 1 \<Longrightarrow> x \<in> set xs \<Longrightarrow> P x \<Longrightarrow> y \<in> set xs \<Longrightarrow> P y \<Longrightarrow> x = y"
  by (induction xs) (auto split: if_splits simp: filter_empty_conv)

lemma active_unique:
  assumes "at_most_one_pending d now"
    and "k \<in> set (tokens d)" "active uid ty now k"
    and "k' \<in> set (tokens d)" "active uid ty now k'"
  shows "k' = k"
  using assms filter_at_most_one_unique[of "active uid ty now" "tokens d" k' k]
  by (simp add: at_most_one_pending_iff)

lemma find_valid_token_Some:
  assumes "k \<in> set (tokens d)" "active uid EMAIL now k"
  shows "\<exists>k'. find_valid_token uid now d = Some k' \<and> k' \<in> set (tokens d) \<and> active uid EMAIL now k'"
proof (cases "find_valid_token uid now d")
  case None
  with assms show ?thesis by (auto simp: find_valid_token_def find_None_iff)
next
  case (Some k')
  then show ?thesis
    by (auto simp: find_valid_token_def find_Some_iff)
qed

lemma send_reissue:
  assumes "req_user req = Some ru" and "find_user_by_id (u_id ru) d = Some cu"
    and "find_valid_token (u_id ru) (new_date env) d = Some k"
  shows "sendEmailVerificationCode env req d = (token_ok None k, d, None)"
  using assms find_user_by_id_id[OF assms(2)]
  by (simp add: sendEmailVerificationCode_def)

lemma insert_token_Some:
  "insert_token k d = Some d' \<Longrightarrow> tokens d' = tokens d @ [k] \<and> users d' = users d \<and> sessions d' = sessions d"
  by (auto simp: insert_token_def split: if_splits)

lemma status_failures [simp]:
  "status bad_request = 400" "status unauthorized = 401" "status conflict = 409"
  "status internal_server_error = 500"
  by (simp_all add: bad_request_def unauthorized_def conflict_def internal_server_error_def failure_def)

lemma find_alice: "find_user_by_id ''a1'' db_pending = Some alice"
  by (simp add: find_user_by_id_def db_pending_def alice_def)

lemma db_pending_invariant: "at_most_one_pending db_pending now"
  by (simp add: at_most_one_pending_def db_pending_def)

lemma find_user_by_id_None:
  "find_user_by_id i d = None \<longleftrightarrow> i \<notin> set (map u_id (users d))"
  by (auto simp: find_user_by_id_def find_None_iff image_iff)

lemma find_user_by_email_None:
  "find_user_by_email e d = None \<longleftrightarrow> e \<notin> set (map u_email (users d))"
  by (auto simp: find_user_by_email_def find_None_iff image_iff)

lemma find_user_by_email_Some:
  "find_user_by_email e d = Some u \<Longrightarrow> u \<in> set (users d) \<and> u_email u = e"
  by (auto simp: find_user_by_email_def find_Some_iff)

subsection \<open>Sessions and users after sign-up and sign-in\<close>


lemma insert_session_Some:
  "insert_session s d = Some d' \<Longrightarrow>
     sessions d' = sessions d @ [s] \<and> users d' = users d \<and> tokens d' = tokens d"
  by (auto simp: insert_session_def split: if_splits)

lemma insert_user_Some:
  "insert_user u d = Some d' \<Longrightarrow>
     users d' = users d @ [u] \<and> sessions d' = sessions d \<and> tokens d' = tokens d"
  by (auto simp: insert_user_def split: if_splits)

lemma signUp_sessions:
  assumes "signUp env req firstName lastName email phone password d = (r, d')"
  shows "(status r \<noteq> 201 \<and> sessions d' = sessions d)
       \<or> (status r = 201 \<and> cookie r = Some (random_sessionToken env, 604800000) \<and>
           sessions d' = sessions d @ [new_session env req (random_userId env) (date_now env + 604800000)])"
  using assms
  by (auto simp: signUp_def Let_def user_ok_def select_user_by_email_def
      dest!: insert_session_Some insert_user_Some split: if_splits option.splits)

lemma signIn_sessions:
  assumes "signIn env req email password rememberMe d = (r, d')"
  shows "(status r \<noteq> 200 \<and> set (sessions d') \<subseteq> set (sessions d))
       \<or> (\<exists>u. find_user_by_email email d = Some u \<and> status r = 200 \<and>
            cookie r = Some (random_sessionToken env, if rememberMe then 604800000 else 86400000) \<and>
            sessions d' = sessions (delete_expired_sessions (u_id u) (new_date env) d) @
              [new_session env req (u_id u)
                 (date_now env + (if rememberMe then 604800000 else 86400000))])"
  using assms
  by (auto simp: signIn_def Let_def user_ok_def delete_expired_sessions_def
      select_user_by_email_def
      dest!: insert_session_Some split: if_splits option.splits)

lemma emailRegex_example: "emailRegex_test ''c@y.org''"
  by (simp add: emailRegex_test_def is_space_def)

lemma signUp_carol:
  "signUp (env_at 1000 ''2'' 0) anonymous ''C'' ''D'' ''c@y.org'' ''+1666'' ''secret2'' db_alice =
     (user_ok 201 (Some ''User created successfully'')
        \<lparr>u_id = ''u2'', u_name = ''C D'', u_firstName = ''C'', u_lastName = ''D'',
         u_email = ''c@y.org'', u_password = ''h:secret2'', u_emailVerified = False,
         u_phone = ''+1666'', u_phoneVerified = False, u_role = FREE,
         u_createdAt = 1000, u_updatedAt = 1000\<rparr>
        (Some (''st2'', 604800000)),
      \<lparr>users = [alice,
         \<lparr>u_id = ''u2'', u_name = ''C D'', u_firstName = ''C'', u_lastName = ''D'',
         u_email = ''c@y.org'', u_password = ''h:secret2'', u_emailVerified = False,
         u_phone = ''+1666'', u_phoneVerified = False, u_role = FREE,
         u_createdAt = 1000, u_updatedAt = 1000\<rparr>],
       sessions = [\<lparr>s_id = ''s2'', s_userId = ''u2'', s_token = ''st2'',
          s_ipAddress = Some ''10.0.0.2'', s_userAgent = None, s_expiresAt = 604801000,
          s_createdAt = 1000, s_updatedAt = 1000\<rparr>],
       tokens = []\<rparr>)"
  by (simp add: signUp_def emailRegex_example select_user_by_email_def storable_def
      find_user_by_email_def db_alice_def alice_def
      env_at_sel insert_user_def insert_session_def new_session_def anonymous_def Let_def)

lemma signIn_alice:
  "signIn (env_at 1000 ''3'' 0) anonymous ''a@x.com'' ''secret1'' rememberMe db_alice =
     (user_ok 200 (Some ''Signed in successfully'') alice
        (Some (''st3'', if rememberMe then 604800000 else 86400000)),
      \<lparr>users = [alice],
       sessions = [\<lparr>s_id = ''s3'', s_userId = ''a1'', s_token = ''st3'',
          s_ipAddress = Some ''10.0.0.2'', s_userAgent = None,
          s_expiresAt = (if rememberMe then 604801000 else 86401000),
          s_createdAt = 1000, s_updatedAt = 1000\<rparr>],
       tokens = []\<rparr>)"
  by (simp add: signIn_def select_user_by_email_def storable_def find_user_by_email_def
      db_alice_def alice_def
      env_at_sel insert_session_def new_session_def anonymous_def Let_def
      delete_expired_sessions_def)

subsection \<open>Verification\<close>


lemma toUpperCase_old: "toUpperCase ''old123'' = ''OLD123''"
  by code_simp

lemma toUpperCase_OLD: "toUpperCase ''OLD123'' = ''OLD123''"
  by code_simp

lemma alnum_old: "alnum_test ''old123''" "alnum_test ''OLD123''"
  by (simp_all add: alnum_test_def is_alnum_def)

lemma spec_outcome_internal: "spec_outcome internal_server_error = Some Internal"
  by (simp add: spec_outcome_def internal_server_error_def bad_request_def unauthorized_def
      conflict_def failure_def)

lemma find_valid_token_with_code_None:
  "find_valid_token_with_code uid c now d = None \<longleftrightarrow>
     (\<forall>k \<in> set (tokens d). \<not> (t_code k = c \<and> active uid EMAIL now k))"
  by (auto simp: find_valid_token_with_code_def find_None_iff)

lemma verify_unmatched:
  assumes "req_user req = Some ru" and "find_user_by_id (u_id ru) d = Some cu"
    and "length code = 6" and "alnum_test code"
    and "find_valid_token_with_code (u_id ru) (toUpperCase code) (new_date env) d = None"
  shows "verifyEmailVerificationCode env req code d = (internal_server_error, d)"
  using assms find_user_by_id_id[OF assms(2)]
  by (auto simp: verifyEmailVerificationCode_def)

lemma find_alice_elapsed: "find_user_by_id ''a1'' db_elapsed = Some alice"
  by (simp add: find_user_by_id_def db_elapsed_def alice_def)

subsection \<open>Resend\<close>


lemma expire_email_tokens_users: "users (expire_email_tokens u d) = users d"
  by (simp add: expire_email_tokens_def)

lemma find_user_by_id_cong: "users d' = users d \<Longrightarrow> find_user_by_id i d' = find_user_by_id i d"
  by (simp add: find_user_by_id_def)

lemma insert_token_fresh:
  assumes "t_id k \<notin> set (map t_id (tokens d))" "t_code k \<notin> set (map t_code (tokens d))"
    and "t_userId k \<in> set (map u_id (users d))"
  shows "insert_token k (expire_email_tokens u d) =
           Some ((expire_email_tokens u d)\<lparr>tokens := tokens (expire_email_tokens u d) @ [k]\<rparr>)"
proof -
  have "map t_id (tokens (expire_email_tokens u d)) = map t_id (tokens d)"
    "map t_code (tokens (expire_email_tokens u d)) = map t_code (tokens d)"
    by (simp_all add: expire_email_tokens_def comp_def if_distrib[of t_id] if_distrib[of t_code])
  with assms show ?thesis
    by (simp add: insert_token_def expire_email_tokens_users)
qed

text \<open>After the update of an issuance, no code finds a token of the user.\<close>

lemma no_match_in_expired:
  "find (\<lambda>k. t_code k = c \<and> active u EMAIL now k)
     (map (\<lambda>k. if t_userId k = u \<and> t_type k = EMAIL then k\<lparr>t_status := EXPIRED\<rparr> else k) ks)
   = None"
  by (induction ks) (auto simp: active_def)

lemma no_match_after_expire:
  "find (\<lambda>k. t_code k = c \<and> active u EMAIL now k) (tokens (expire_email_tokens u d)) = None"
  by (simp add: expire_email_tokens_def no_match_in_expired)

lemma find_append_None:
  "find P xs = None \<Longrightarrow> \<not> P k \<Longrightarrow> find P (xs @ [k]) = None"
  by (auto simp: find_None_iff)

lemma resend_result:
  assumes "req_user req = Some ru" and "find_user_by_id (u_id ru) d = Some cu"
  shows "resendEmailVerificationCode env req d =
     (case insert_token (new_token env (u_id ru)) (expire_email_tokens (u_id ru) d) of
        None \<Rightarrow> (internal_server_error, expire_email_tokens (u_id ru) d, None)
      | Some d2 \<Rightarrow>
          (if send_fails env then internal_server_error
           else token_ok None (new_token env (u_id ru)),
           d2,
           Some (verification_mail ''Email Verification Code - Resent'' cu
                   (t_code (new_token env (u_id ru))))))"
  using assms find_user_by_id_id[OF assms(2)]
  by (simp add: resendEmailVerificationCode_def Let_def split: option.splits)

lemma find_alice_collision: "find_user_by_id ''a1'' db_collision = Some alice"
  by (simp add: find_user_by_id_def db_collision_def alice_def)

lemma resend_on_collision:
  "resendEmailVerificationCode (env_at 1000 ''1'' 0) as_alice db_collision =
     (internal_server_error,
      \<lparr>users = [alice], sessions = [], tokens = [colliding_token\<lparr>t_status := EXPIRED\<rparr>]\<rparr>,
      None)"
  by (simp add: resendEmailVerificationCode_def as_alice_def db_collision_def find_user_by_id_def
      alice_def expire_email_tokens_def colliding_token_def insert_token_def new_token_1
      env_at_sel Let_def)

lemma verify_old_after_resend:
  "verifyEmailVerificationCode (env_at 2000 ''2'' 6) as_alice ''OLD123''
     \<lparr>users = [alice], sessions = [],
      tokens = [old_token\<lparr>t_status := EXPIRED\<rparr>, new_token (env_at 1000 ''1'' 0) ''a1'']\<rparr>
   = (internal_server_error,
      \<lparr>users = [alice], sessions = [],
       tokens = [old_token\<lparr>t_status := EXPIRED\<rparr>, new_token (env_at 1000 ''1'' 0) ''a1'']\<rparr>)"
proof -
  let ?d = "\<lparr>users = [alice], sessions = [],
      tokens = [old_token\<lparr>t_status := EXPIRED\<rparr>, new_token (env_at 1000 ''1'' 0) ''a1'']\<rparr>"
  have u: "req_user as_alice = Some alice" "find_user_by_id (u_id alice) ?d = Some alice"
    by (simp_all add: as_alice_def alice_def find_user_by_id_def)
  have n: "find_valid_token_with_code (u_id alice) (toUpperCase ''OLD123'')
             (new_date (env_at 2000 ''2'' 6)) ?d = None"
    by (simp add: find_valid_token_with_code_def toUpperCase_OLD env_at_sel
        old_token_def active_def new_token_1)
  show ?thesis
    using u _ alnum_old(2) n by (rule verify_unmatched) simp
qed

subsection \<open>Sign-up and the unique columns\<close>


lemma signUp_registered_email:
  assumes "firstName \<noteq> []" "lastName \<noteq> []" "phone \<noteq> []"
    and "emailRegex_test email" and "6 \<le> length password"
    and "email \<in> set (map u_email (users d))" and "storable email"
  shows "signUp env req firstName lastName email phone password d = (conflict, d)"
proof -
  from assms(6) obtain u where "find_user_by_email email d = Some u"
    by (cases "find_user_by_email email d") (auto simp: find_user_by_email_None)
  moreover from assms(4) have "email \<noteq> []"
    by (auto simp: emailRegex_test_def)
  moreover from assms(5) have "password \<noteq> []" by auto
  ultimately show ?thesis
    using assms(1-5,7) by (simp add: signUp_def select_user_by_email_def)
qed

lemma insert_user_unique:
  assumes "insert_user u d = Some d'"
    and "distinct (map u_email (users d))" and "distinct (map u_phone (users d))"
  shows "distinct (map u_email (users d')) \<and> distinct (map u_phone (users d'))"
  using assms by (auto simp: insert_user_def split: if_splits)

lemma signUp_users:
  assumes "signUp env req firstName lastName email phone password d = (r, d')"
  shows "users d' = users d \<or> (\<exists>u d1. insert_user u d = Some d1 \<and> users d' = users d1)"
proof (cases "select_user_by_email email d = Some None")
  case False
  with assms show ?thesis
    by (auto simp: signUp_def split: if_splits option.splits)
next
  case True
  let ?u = "\<lparr>u_id = random_userId env, u_name = firstName @ '' '' @ lastName,
             u_firstName = firstName, u_lastName = lastName, u_email = email,
             u_password = bcrypt_hash env password, u_emailVerified = False,
             u_phone = phone, u_phoneVerified = False, u_role = FREE,
             u_createdAt = db_now env, u_updatedAt = db_now env\<rparr>"
  show ?thesis
  proof (cases "insert_user ?u d")
    case None
    with True assms show ?thesis by (auto simp: signUp_def Let_def split: if_splits)
  next
    case (Some d1)
    with True assms have "users d' = users d \<or> users d' = users d1"
      by (auto simp: signUp_def Let_def dest: insert_session_Some split: if_splits option.splits)
    with Some show ?thesis by blast
  qed
qed

text \<open>
  Whatever sign-up answers, it keeps emails and phones pairwise distinct among the users,
  and a registered email is answered with \<^verbatim>\<open>Conflict\<close>.
\<close>

lemma signUp_keeps_users_unique:
  assumes "signUp env req firstName lastName email phone password d = (r, d')"
    and "distinct (map u_email (users d))" and "distinct (map u_phone (users d))"
  shows "distinct (map u_email (users d')) \<and> distinct (map u_phone (users d'))"
  using signUp_users[OF assms(1)] assms(2,3) insert_user_unique
  by (metis (no_types, lifting))

subsection \<open>The verification mail\<close>

text \<open>Every message of the two issuing handlers goes to the address written in them.\<close>


lemma mail_recipient:
  assumes "snd (snd (sendEmailVerificationCode env req d)) = Some mail
         \<or> snd (snd (resendEmailVerificationCode env req d)) = Some mail"
  shows "mail_to mail = ''bigtexascompsci@proton.me''"
  using assms
  by (auto simp: sendEmailVerificationCode_def resendEmailVerificationCode_def Let_def
      verification_mail_def split: option.splits if_splits)

lemma send_on_alice:
  "sendEmailVerificationCode (env_at 1000 ''1'' 0) as_alice db_alice =
     (token_ok (Some ''Verification code sent successfully'') (new_token (env_at 1000 ''1'' 0) ''a1''),
      \<lparr>users = [alice], sessions = [], tokens = [new_token (env_at 1000 ''1'' 0) ''a1'']\<rparr>,
      Some (verification_mail ''Email Verification Code'' alice ''ABCDEF''))"
  by (simp add: sendEmailVerificationCode_def as_alice_def db_alice_def find_user_by_id_def
      find_valid_token_def alice_def expire_email_tokens_def insert_token_def new_token_1
      env_at_sel Let_def)

lemma insert_token_refused:
  assumes "t_id k \<in> set (map t_id (tokens d)) \<or> t_code k \<in> set (map t_code (tokens d))"
  shows "insert_token k (expire_email_tokens u d) = None"
proof -
  have "map t_id (tokens (expire_email_tokens u d)) = map t_id (tokens d)"
    "map t_code (tokens (expire_email_tokens u d)) = map t_code (tokens d)"
    by (simp_all add: expire_email_tokens_def comp_def if_distrib[of t_id] if_distrib[of t_code])
  with assms show ?thesis
    by (auto simp: insert_token_def)
qed

text \<open>
  The store after the two statements of an issuance for a user with a row: the tokens of
  the user expired, and the new token appended unless its id or code is already stored.
\<close>

lemma run_issuance_store:
  assumes "find_user_by_id u d = Some cu"
  shows "users (run (issuance env u) d) = users d
       \<and> sessions (run (issuance env u) d) = sessions d
       \<and> tokens (run (issuance env u) d) =
           tokens (expire_email_tokens u d) @
             (if random_tokenId env \<notin> set (map t_id (tokens d))
                 \<and> generateCode (random_ints env) \<notin> set (map t_code (tokens d))
              then [new_token env u] else [])"
proof (cases "random_tokenId env \<notin> set (map t_id (tokens d))
                 \<and> generateCode (random_ints env) \<notin> set (map t_code (tokens d))")
  case True
  from assms have "find_user_by_id u d \<noteq> None" by simp
  then have fk: "t_userId (new_token env u) \<in> set (map u_id (users d))"
    by (simp add: find_user_by_id_None new_token_def)
  from True have fresh: "t_id (new_token env u) \<notin> set (map t_id (tokens d))"
    "t_code (new_token env u) \<notin> set (map t_code (tokens d))"
    by (simp_all add: new_token_def)
  from insert_token_fresh[OF fresh fk, of u] True show ?thesis
    by (simp add: run_issuance expire_email_tokens_def)
next
  case False
  then have "t_id (new_token env u) \<in> set (map t_id (tokens d))
           \<or> t_code (new_token env u) \<in> set (map t_code (tokens d))"
    by (auto simp: new_token_def)
  from insert_token_refused[OF this, of u] False show ?thesis
    by (simp add: run_issuance expire_email_tokens_def)
qed

lemma run_racing_schedule:
  "run racing_schedule db_alice =
     \<lparr>users = [alice], sessions = [],
      tokens = [new_token (env_at 1000 ''1'' 0) ''a1'', new_token (env_at 1001 ''2'' 6) ''a1'']\<rparr>"
  by (simp add: racing_schedule_def run_def db_alice_def expire_email_tokens_def
      insert_token_def new_token_1 new_token_2 alice_def)

lemma issue_insert:
  assumes "find_user_by_id u d = Some cu"
    and "random_tokenId env \<notin> set (map t_id (tokens d))"
    and "generateCode (random_ints env) \<notin> set (map t_code (tokens d))"
  shows "insert_token (new_token env u) (expire_email_tokens u d) =
           Some ((expire_email_tokens u d)
                   \<lparr>tokens := tokens (expire_email_tokens u d) @ [new_token env u]\<rparr>)"
proof -
  from assms(1) have "find_user_by_id u d \<noteq> None" by simp
  then have fk: "t_userId (new_token env u) \<in> set (map u_id (users d))"
    by (simp add: find_user_by_id_None new_token_def)
  from assms(2,3) have fresh: "t_id (new_token env u) \<notin> set (map t_id (tokens d))"
    "t_code (new_token env u) \<notin> set (map t_code (tokens d))"
    by (simp_all add: new_token_def)
  show ?thesis by (rule insert_token_fresh[OF fresh fk])
qed

lemma send_result:
  assumes "req_user req = Some ru" and "find_user_by_id (u_id ru) d = Some cu"
    and "find_valid_token (u_id ru) (new_date env) d = None"
  shows "sendEmailVerificationCode env req d =
     (case insert_token (new_token env (u_id ru)) (expire_email_tokens (u_id ru) d) of
        None \<Rightarrow> (internal_server_error, expire_email_tokens (u_id ru) d, None)
      | Some d2 \<Rightarrow>
          (if send_fails env then internal_server_error
           else token_ok (Some ''Verification code sent successfully'') (new_token env (u_id ru)),
           d2,
           Some (verification_mail ''Email Verification Code'' cu
                   (t_code (new_token env (u_id ru))))))"
  using assms find_user_by_id_id[OF assms(2)]
  by (simp add: sendEmailVerificationCode_def Let_def split: option.splits)

text \<open>What a 200 answer of an issuing handler carries.\<close>

lemma ok_payload:
  assumes "sendEmailVerificationCode env req d = (r, d', m)
         \<or> resendEmailVerificationCode env req d = (r, d', m)"
    and "status r = 200"
  shows "\<exists>k ru. req_user req = Some ru \<and> data r = Some (TokenData k) \<and> k \<in> set (tokens d')
            \<and> t_userId k = u_id ru \<and> t_type k = EMAIL \<and> t_status k = PENDING
            \<and> (\<forall>mail. m = Some mail \<longrightarrow> mail_code mail = t_code k)"
  using assms(1)
proof
  assume "sendEmailVerificationCode env req d = (r, d', m)"
  with assms(2) show ?thesis
    by (auto simp: sendEmailVerificationCode_def Let_def token_ok_def new_token_def
        verification_mail_def find_valid_token_def find_Some_iff active_def
        dest!: insert_token_Some find_user_by_id_id
        split: option.splits if_splits)
next
  assume "resendEmailVerificationCode env req d = (r, d', m)"
  with assms(2) show ?thesis
    by (auto simp: resendEmailVerificationCode_def Let_def token_ok_def new_token_def
        verification_mail_def
        dest!: insert_token_Some find_user_by_id_id
        split: option.splits if_splits)
qed


section \<open>The claims\<close>

subsection \<open>C1: at most one pending token per owner and type\<close>

text \<open>
  Claim C1, as the handlers have it. If no owner and type has two tokens that are
  \<^verbatim>\<open>PENDING\<close> and unexpired at an instant, then the same holds of the store that
  \<^verbatim>\<open>sendEmailVerificationCode\<close> or \<^verbatim>\<open>resendEmailVerificationCode\<close> leaves when its
  statements run with no statement of another request between them. The store they leave
  is this. For a request whose user has a row (and, for send, no valid token), users and
  sessions are unchanged and the token table is the old one with every \<^verbatim>\<open>EMAIL\<close> token of
  the user marked \<^verbatim>\<open>EXPIRED\<close>, followed by the one new \<^verbatim>\<open>PENDING\<close> \<^verbatim>\<open>EMAIL\<close> token of the
  user if the generated id and code are stored for no token yet, and by nothing if one of
  them is (the insert is refused after the update took effect). Without a user or a row,
  and for send with a valid token, the store is unchanged.
\<close>

theorem issuance_preserves_at_most_one_pending:
  assumes "at_most_one_pending d now"
  shows "at_most_one_pending (fst (snd (sendEmailVerificationCode env req d))) now
       \<and> at_most_one_pending (fst (snd (resendEmailVerificationCode env req d))) now
       \<and> (\<forall>ru cu. req_user req = Some ru \<and> find_user_by_id (u_id ru) d = Some cu \<longrightarrow>
            users (fst (snd (resendEmailVerificationCode env req d))) = users d
          \<and> sessions (fst (snd (resendEmailVerificationCode env req d))) = sessions d
          \<and> tokens (fst (snd (resendEmailVerificationCode env req d))) =
               map (\<lambda>k. if t_userId k = u_id ru \<and> t_type k = EMAIL
                         then k\<lparr>t_status := EXPIRED\<rparr> else k) (tokens d)
               @ (if random_tokenId env \<notin> set (map t_id (tokens d))
                     \<and> generateCode (random_ints env) \<notin> set (map t_code (tokens d))
                  then [new_token env (u_id ru)] else []))
       \<and> (\<forall>ru cu. req_user req = Some ru \<and> find_user_by_id (u_id ru) d = Some cu
              \<and> find_valid_token (u_id ru) (new_date env) d = None \<longrightarrow>
            users (fst (snd (sendEmailVerificationCode env req d))) = users d
          \<and> sessions (fst (snd (sendEmailVerificationCode env req d))) = sessions d
          \<and> tokens (fst (snd (sendEmailVerificationCode env req d))) =
               map (\<lambda>k. if t_userId k = u_id ru \<and> t_type k = EMAIL
                         then k\<lparr>t_status := EXPIRED\<rparr> else k) (tokens d)
               @ (if random_tokenId env \<notin> set (map t_id (tokens d))
                     \<and> generateCode (random_ints env) \<notin> set (map t_code (tokens d))
                  then [new_token env (u_id ru)] else []))
       \<and> (req_user req = None
            \<or> (\<exists>ru. req_user req = Some ru \<and> find_user_by_id (u_id ru) d = None) \<longrightarrow>
            fst (snd (resendEmailVerificationCode env req d)) = d
          \<and> fst (snd (sendEmailVerificationCode env req d)) = d)
       \<and> (\<forall>ru. req_user req = Some ru \<and> find_valid_token (u_id ru) (new_date env) d \<noteq> None
              \<longrightarrow> fst (snd (sendEmailVerificationCode env req d)) = d)
       \<and> t_userId (new_token env uid) = uid \<and> t_type (new_token env uid) = EMAIL
       \<and> t_status (new_token env uid) = PENDING"
proof -
  have inv_send: "at_most_one_pending (fst (snd (sendEmailVerificationCode env req d))) now"
    using assms by (simp add: send_store run_issuance_preserves split: option.splits)
  have inv_resend: "at_most_one_pending (fst (snd (resendEmailVerificationCode env req d))) now"
    using assms by (simp add: resend_store run_issuance_preserves split: option.splits)
  have resend_issues: "users (fst (snd (resendEmailVerificationCode env req d))) = users d
          \<and> sessions (fst (snd (resendEmailVerificationCode env req d))) = sessions d
          \<and> tokens (fst (snd (resendEmailVerificationCode env req d))) =
               map (\<lambda>k. if t_userId k = u_id ru \<and> t_type k = EMAIL
                         then k\<lparr>t_status := EXPIRED\<rparr> else k) (tokens d)
               @ (if random_tokenId env \<notin> set (map t_id (tokens d))
                     \<and> generateCode (random_ints env) \<notin> set (map t_code (tokens d))
                  then [new_token env (u_id ru)] else [])"
    if "req_user req = Some ru \<and> find_user_by_id (u_id ru) d = Some cu" for ru cu
  proof -
    from that have "fst (snd (resendEmailVerificationCode env req d)) = run (issuance env (u_id ru)) d"
      by (simp add: resend_store)
    with run_issuance_store[of "u_id ru" d cu env] that show ?thesis
      by (simp add: expire_email_tokens_def)
  qed
  have send_issues: "users (fst (snd (sendEmailVerificationCode env req d))) = users d
          \<and> sessions (fst (snd (sendEmailVerificationCode env req d))) = sessions d
          \<and> tokens (fst (snd (sendEmailVerificationCode env req d))) =
               map (\<lambda>k. if t_userId k = u_id ru \<and> t_type k = EMAIL
                         then k\<lparr>t_status := EXPIRED\<rparr> else k) (tokens d)
               @ (if random_tokenId env \<notin> set (map t_id (tokens d))
                     \<and> generateCode (random_ints env) \<notin> set (map t_code (tokens d))
                  then [new_token env (u_id ru)] else [])"
    if "req_user req = Some ru \<and> find_user_by_id (u_id ru) d = Some cu
              \<and> find_valid_token (u_id ru) (new_date env) d = None" for ru cu
  proof -
    from that have "fst (snd (sendEmailVerificationCode env req d)) = run (issuance env (u_id ru)) d"
      by (simp add: send_store)
    with run_issuance_store[of "u_id ru" d cu env] that show ?thesis
      by (simp add: expire_email_tokens_def)
  qed
  have unchanged: "fst (snd (resendEmailVerificationCode env req d)) = d
          \<and> fst (snd (sendEmailVerificationCode env req d)) = d"
    if "req_user req = None
            \<or> (\<exists>ru. req_user req = Some ru \<and> find_user_by_id (u_id ru) d = None)"
    using that by (auto simp: send_store resend_store)
  have reissue: "fst (snd (sendEmailVerificationCode env req d)) = d"
    if "req_user req = Some ru \<and> find_valid_token (u_id ru) (new_date env) d \<noteq> None" for ru
    using that by (auto simp: send_store split: option.splits)
  have fields: "t_userId (new_token env uid) = uid \<and> t_type (new_token env uid) = EMAIL
       \<and> t_status (new_token env uid) = PENDING"
    by (simp add: new_token_def)
  from inv_send inv_resend resend_issues send_issues unchanged reissue fields
  show ?thesis by blast
qed

theorem issuance_preserves_witness:
  "at_most_one_pending db_pending 2000
   \<and> at_most_one_pending
        (fst (snd (resendEmailVerificationCode (env_at 1000 ''1'' 0) as_alice db_pending))) 2000
   \<and> tokens (fst (snd (resendEmailVerificationCode (env_at 1000 ''1'' 0) as_alice db_pending)))
       = [old_token\<lparr>t_status := EXPIRED\<rparr>, new_token (env_at 1000 ''1'' 0) ''a1'']
   \<and> at_most_one_pending db_collision 2000
   \<and> tokens (fst (snd (resendEmailVerificationCode (env_at 1000 ''1'' 0) as_alice db_collision)))
       = [colliding_token\<lparr>t_status := EXPIRED\<rparr>]
   \<and> tokens (fst (snd (sendEmailVerificationCode (env_at 1000 ''1'' 0) as_alice db_pending)))
       = [old_token]"
proof -
  have inv: "at_most_one_pending db_pending 2000"
    by (simp add: at_most_one_pending_def db_pending_def old_token_def active_def)
  have inv_c: "at_most_one_pending db_collision 2000"
    by (simp add: at_most_one_pending_def db_collision_def colliding_token_def active_def)
  have u: "req_user as_alice = Some alice \<and> find_user_by_id (u_id alice) db_pending = Some alice"
    using find_alice by (simp add: as_alice_def alice_def)
  have uc: "req_user as_alice = Some alice \<and> find_user_by_id (u_id alice) db_collision = Some alice"
    using find_alice_collision by (simp add: as_alice_def alice_def)
  have v: "req_user as_alice = Some alice
         \<and> find_valid_token (u_id alice) (new_date (env_at 1000 ''1'' 0)) db_pending \<noteq> None"
    by (simp add: as_alice_def find_valid_token_def db_pending_def old_token_def active_def
        alice_def env_at_sel)
  note p = issuance_preserves_at_most_one_pending[OF inv, of "env_at 1000 ''1'' 0" as_alice]
  note c = issuance_preserves_at_most_one_pending[OF inv_c, of "env_at 1000 ''1'' 0" as_alice]
  from p have "at_most_one_pending
        (fst (snd (resendEmailVerificationCode (env_at 1000 ''1'' 0) as_alice db_pending))) 2000"
    by blast
  moreover from p u
  have "tokens (fst (snd (resendEmailVerificationCode (env_at 1000 ''1'' 0) as_alice db_pending))) =
               map (\<lambda>k. if t_userId k = u_id alice \<and> t_type k = EMAIL
                         then k\<lparr>t_status := EXPIRED\<rparr> else k) (tokens db_pending)
               @ (if random_tokenId (env_at 1000 ''1'' 0) \<notin> set (map t_id (tokens db_pending))
                     \<and> generateCode (random_ints (env_at 1000 ''1'' 0))
                         \<notin> set (map t_code (tokens db_pending))
                  then [new_token (env_at 1000 ''1'' 0) (u_id alice)] else [])"
    by blast
  then have "tokens (fst (snd (resendEmailVerificationCode (env_at 1000 ''1'' 0) as_alice db_pending)))
       = [old_token\<lparr>t_status := EXPIRED\<rparr>, new_token (env_at 1000 ''1'' 0) ''a1'']"
    by (simp add: db_pending_def old_token_def alice_def env_at_sel generateCode_identity)
  moreover from c uc
  have "tokens (fst (snd (resendEmailVerificationCode (env_at 1000 ''1'' 0) as_alice db_collision))) =
               map (\<lambda>k. if t_userId k = u_id alice \<and> t_type k = EMAIL
                         then k\<lparr>t_status := EXPIRED\<rparr> else k) (tokens db_collision)
               @ (if random_tokenId (env_at 1000 ''1'' 0) \<notin> set (map t_id (tokens db_collision))
                     \<and> generateCode (random_ints (env_at 1000 ''1'' 0))
                         \<notin> set (map t_code (tokens db_collision))
                  then [new_token (env_at 1000 ''1'' 0) (u_id alice)] else [])"
    by blast
  then have "tokens (fst (snd (resendEmailVerificationCode (env_at 1000 ''1'' 0) as_alice db_collision)))
       = [colliding_token\<lparr>t_status := EXPIRED\<rparr>]"
    by (simp add: db_collision_def colliding_token_def alice_def env_at_sel generateCode_identity)
  moreover from p v
  have "fst (snd (sendEmailVerificationCode (env_at 1000 ''1'' 0) as_alice db_pending)) = db_pending"
    by blast
  then have "tokens (fst (snd (sendEmailVerificationCode (env_at 1000 ''1'' 0) as_alice db_pending)))
       = [old_token]"
    by (simp add: db_pending_def)
  ultimately show ?thesis using inv inv_c by simp
qed

text \<open>
  The update and the insert are two statements, not one atomic unit. With two resend
  requests of one user in flight, the schedule that runs both updates before both inserts
  is an interleaving of their statements; it starts from a store that satisfies the
  invariant and leaves two \<^verbatim>\<open>PENDING\<close> unexpired tokens for the same owner and type.
\<close>

theorem concurrent_issuance_counterexample:
  "at_most_one_pending db_alice 2000
   \<and> fst (snd (resendEmailVerificationCode (env_at 1000 ''1'' 0) as_alice db_alice))
       = run (issuance (env_at 1000 ''1'' 0) ''a1'') db_alice
   \<and> fst (snd (resendEmailVerificationCode (env_at 1001 ''2'' 6) as_alice db_alice))
       = run (issuance (env_at 1001 ''2'' 6) ''a1'') db_alice
   \<and> racing_schedule \<in>
       set (interleave (issuance (env_at 1000 ''1'' 0) ''a1'') (issuance (env_at 1001 ''2'' 6) ''a1''))
   \<and> tokens (run racing_schedule db_alice)
       = [new_token (env_at 1000 ''1'' 0) ''a1'', new_token (env_at 1001 ''2'' 6) ''a1'']
   \<and> \<not> at_most_one_pending (run racing_schedule db_alice) 2000"
proof -
  have a: "at_most_one_pending db_alice 2000"
    by (simp add: at_most_one_pending_def db_alice_def)
  have b: "fst (snd (resendEmailVerificationCode env as_alice db_alice))
       = run (issuance env ''a1'') db_alice" for env
    by (simp add: resend_store as_alice_def db_alice_def find_user_by_id_def alice_def)
  have c: "racing_schedule \<in>
       set (interleave (issuance (env_at 1000 ''1'' 0) ''a1'') (issuance (env_at 1001 ''2'' 6) ''a1''))"
    by (simp add: racing_schedule_def issuance_def)
  have d: "run racing_schedule db_alice =
     \<lparr>users = [alice], sessions = [],
      tokens = [new_token (env_at 1000 ''1'' 0) ''a1'', new_token (env_at 1001 ''2'' 6) ''a1'']\<rparr>"
    by (simp add: racing_schedule_def run_def db_alice_def expire_email_tokens_def
        insert_token_def new_token_1 new_token_2 alice_def)
  have e: "\<not> at_most_one_pending (run racing_schedule db_alice) 2000"
    by (simp add: d at_most_one_pending_def new_token_1 new_token_2 active_def)
  from a b c d e show ?thesis by simp
qed

subsection \<open>C3: a second send within the validity window\<close>

text \<open>
  Claim C3, as the handler has it. Let the request carry a user whose row exists, and let
  that user own an \<^verbatim>\<open>EMAIL\<close> token that is \<^verbatim>\<open>PENDING\<close> with \<^verbatim>\<open>expiresAt\<close> after the clock
  reading of the lookup. Then \<^verbatim>\<open>sendEmailVerificationCode\<close> answers 200 with a stored token
  of that kind as payload, leaves the store as it was and hands nothing to the mail
  service. When the token is the only one of that kind that the user owns, the payload is
  that token, and every later call before its \<^verbatim>\<open>expiresAt\<close> gives the same answer, so the
  same code.
\<close>

theorem send_reissue_idempotent:
  assumes "req_user req = Some ru" and "find_user_by_id (u_id ru) d = Some cu"
    and "k \<in> set (tokens d)" and "active (u_id ru) EMAIL (new_date env) k"
  shows "\<exists>k'. k' \<in> set (tokens d) \<and> active (u_id ru) EMAIL (new_date env) k'
           \<and> sendEmailVerificationCode env req d =
               (\<lparr>status = 200, success = True, message = None, data = Some (TokenData k'),
                 cookie = None\<rparr>, d, None)
           \<and> ((\<forall>j \<in> set (tokens d). active (u_id ru) EMAIL (new_date env) j \<longrightarrow> j = k) \<longrightarrow>
                k' = k \<and>
                (\<forall>env2::env. new_date env \<le> new_date env2 \<and> new_date env2 < t_expiresAt k \<longrightarrow>
                   sendEmailVerificationCode env2 req d =
                     (\<lparr>status = 200, success = True, message = None, data = Some (TokenData k),
                       cookie = None\<rparr>, d, None)))"
proof -
  from find_valid_token_Some[OF assms(3,4)] obtain k' where
    k': "find_valid_token (u_id ru) (new_date env) d = Some k'" "k' \<in> set (tokens d)"
        "active (u_id ru) EMAIL (new_date env) k'"
    by blast
  have first: "sendEmailVerificationCode env req d = (token_ok None k', d, None)"
    by (rule send_reissue[OF assms(1,2) k'(1)])
  have later: "k' = k \<and>
                (\<forall>env2::env. new_date env \<le> new_date env2 \<and> new_date env2 < t_expiresAt k \<longrightarrow>
                   sendEmailVerificationCode env2 req d = (token_ok None k, d, None))"
    if only: "\<forall>j \<in> set (tokens d). active (u_id ru) EMAIL (new_date env) j \<longrightarrow> j = k"
  proof (intro conjI allI impI)
    from only k'(2,3) show "k' = k" by blast
  next
    fix env2 :: env
    assume t: "new_date env \<le> new_date env2 \<and> new_date env2 < t_expiresAt k"
    with assms(4) have "active (u_id ru) EMAIL (new_date env2) k"
      by (simp add: active_def)
    from find_valid_token_Some[OF assms(3) this] obtain k2 where
      k2: "find_valid_token (u_id ru) (new_date env2) d = Some k2" "k2 \<in> set (tokens d)"
          "active (u_id ru) EMAIL (new_date env2) k2"
      by blast
    from k2(3) t have "active (u_id ru) EMAIL (new_date env) k2"
      by (simp add: active_def)
    with only k2(2) have "k2 = k" by blast
    with k2(1) show "sendEmailVerificationCode env2 req d = (token_ok None k, d, None)"
      using send_reissue[OF assms(1,2)] by simp
  qed
  from k'(2,3) first later show ?thesis
    unfolding token_ok_def by blast
qed

theorem send_reissue_witness:
  "sendEmailVerificationCode (env_at 1000 ''1'' 0) as_alice db_pending
     = (token_ok None old_token, db_pending, None)
   \<and> sendEmailVerificationCode (env_at 5000 ''2'' 6) as_alice db_pending
     = (token_ok None old_token, db_pending, None)
   \<and> t_code old_token = ''OLD123''"
proof -
  have u: "req_user as_alice = Some alice" "find_user_by_id (u_id alice) db_pending = Some alice"
    using find_alice by (simp_all add: as_alice_def alice_def)
  have k: "old_token \<in> set (tokens db_pending)"
    "active (u_id alice) EMAIL (new_date (env_at 1000 ''1'' 0)) old_token"
    by (simp_all add: db_pending_def active_def old_token_def alice_def env_at_sel)
  have only: "\<forall>j \<in> set (tokens db_pending).
      active (u_id alice) EMAIL (new_date (env_at 1000 ''1'' 0)) j \<longrightarrow> j = old_token"
    by (simp add: db_pending_def)
  have t: "new_date (env_at 1000 ''1'' 0) \<le> new_date (env_at 5000 ''2'' 6)
         \<and> new_date (env_at 5000 ''2'' 6) < t_expiresAt old_token"
    by (simp add: env_at_sel old_token_def)
  from send_reissue_idempotent[OF u k] only t
  show ?thesis by (auto simp: old_token_def token_ok_def)
qed

text \<open>
  With two valid tokens of one user the answer need not be a given one of them, nor the
  same on two calls. In the store that the racing schedule of two resends leaves, the
  token with code \<^verbatim>\<open>GHIJKL\<close> is valid at the times 1500 and 601000; a send at 1500 answers
  with the other token, code \<^verbatim>\<open>ABCDEF\<close>, and a send at 601000 with \<^verbatim>\<open>GHIJKL\<close>.
\<close>

theorem send_two_pending_counterexample:
  "tokens (run racing_schedule db_alice)
     = [new_token (env_at 1000 ''1'' 0) ''a1'', new_token (env_at 1001 ''2'' 6) ''a1'']
   \<and> active ''a1'' EMAIL 1500 (new_token (env_at 1001 ''2'' 6) ''a1'')
   \<and> active ''a1'' EMAIL 601000 (new_token (env_at 1001 ''2'' 6) ''a1'')
   \<and> sendEmailVerificationCode (env_at 1500 ''3'' 12) as_alice (run racing_schedule db_alice)
       = (token_ok None (new_token (env_at 1000 ''1'' 0) ''a1''),
          run racing_schedule db_alice, None)
   \<and> sendEmailVerificationCode (env_at 601000 ''4'' 18) as_alice (run racing_schedule db_alice)
       = (token_ok None (new_token (env_at 1001 ''2'' 6) ''a1''),
          run racing_schedule db_alice, None)
   \<and> t_code (new_token (env_at 1000 ''1'' 0) ''a1'') = ''ABCDEF''
   \<and> t_code (new_token (env_at 1001 ''2'' 6) ''a1'') = ''GHIJKL''"
proof -
  let ?d = "run racing_schedule db_alice"
  have u: "req_user as_alice = Some alice" "find_user_by_id (u_id alice) ?d = Some alice"
    by (simp_all add: as_alice_def run_racing_schedule find_user_by_id_def alice_def)
  have a: "find_valid_token (u_id alice) (new_date (env_at 1500 ''3'' 12)) ?d
             = Some (new_token (env_at 1000 ''1'' 0) ''a1'')"
    by (simp add: run_racing_schedule find_valid_token_def env_at_sel alice_def)
       (simp add: new_token_1 active_def)
  have b: "find_valid_token (u_id alice) (new_date (env_at 601000 ''4'' 18)) ?d
             = Some (new_token (env_at 1001 ''2'' 6) ''a1'')"
    by (simp add: run_racing_schedule find_valid_token_def env_at_sel alice_def)
       (simp add: new_token_1 new_token_2 active_def)
  from send_reissue[OF u a] send_reissue[OF u b] show ?thesis
    by (simp add: run_racing_schedule) (simp add: new_token_1 new_token_2 active_def)
qed


subsection \<open>C9: the code is part of every successful answer of an issuance\<close>

text \<open>
  Claim C9. Let the request carry a user whose row exists. If the user has a valid token,
  \<^verbatim>\<open>sendEmailVerificationCode\<close> answers 200 with that stored row as payload. If the user
  has none, the generated id and code are stored for no token and the mail service
  accepts the message, it answers 200 with the new token row as payload; so does
  \<^verbatim>\<open>resendEmailVerificationCode\<close>, valid token or not. The payload row includes the
  column \<^verbatim>\<open>code\<close> in plain text: for a new token the generated code, which is also the code
  in the mail. And whenever either handler answers 200, the payload is a token row that
  is stored afterwards, belongs to the requesting user, has type \<^verbatim>\<open>EMAIL\<close> and status
  \<^verbatim>\<open>PENDING\<close>, and a mail sent in the same call carries the code of that row.
\<close>

theorem issued_code_in_response:
  assumes "req_user req = Some ru" and "find_user_by_id (u_id ru) d = Some cu"
  shows "(\<forall>k. find_valid_token (u_id ru) (new_date env) d = Some k \<longrightarrow>
            sendEmailVerificationCode env req d =
              (\<lparr>status = 200, success = True, message = None, data = Some (TokenData k),
                cookie = None\<rparr>, d, None))
       \<and> (find_valid_token (u_id ru) (new_date env) d = None
            \<and> random_tokenId env \<notin> set (map t_id (tokens d))
            \<and> generateCode (random_ints env) \<notin> set (map t_code (tokens d))
            \<and> \<not> send_fails env \<longrightarrow>
            (\<exists>d'. sendEmailVerificationCode env req d =
                    (\<lparr>status = 200, success = True,
                      message = Some ''Verification code sent successfully'',
                      data = Some (TokenData (new_token env (u_id ru))), cookie = None\<rparr>,
                     d',
                     Some (verification_mail ''Email Verification Code'' cu
                             (generateCode (random_ints env))))
                 \<and> new_token env (u_id ru) \<in> set (tokens d')))
       \<and> (random_tokenId env \<notin> set (map t_id (tokens d))
            \<and> generateCode (random_ints env) \<notin> set (map t_code (tokens d))
            \<and> \<not> send_fails env \<longrightarrow>
            (\<exists>d'. resendEmailVerificationCode env req d =
                    (\<lparr>status = 200, success = True, message = None,
                      data = Some (TokenData (new_token env (u_id ru))), cookie = None\<rparr>,
                     d',
                     Some (verification_mail ''Email Verification Code - Resent'' cu
                             (generateCode (random_ints env))))
                 \<and> new_token env (u_id ru) \<in> set (tokens d')))
       \<and> t_code (new_token env (u_id ru)) = generateCode (random_ints env)
       \<and> (\<forall>r d' m. (sendEmailVerificationCode env req d = (r, d', m)
                     \<or> resendEmailVerificationCode env req d = (r, d', m))
                   \<and> status r = 200 \<longrightarrow>
            (\<exists>k. data r = Some (TokenData k) \<and> k \<in> set (tokens d')
               \<and> t_userId k = u_id ru \<and> t_type k = EMAIL \<and> t_status k = PENDING
               \<and> (\<forall>mail. m = Some mail \<longrightarrow> mail_code mail = t_code k)))"
proof (intro conjI allI impI)
  fix k
  assume "find_valid_token (u_id ru) (new_date env) d = Some k"
  from send_reissue[OF assms this]
  show "sendEmailVerificationCode env req d =
              (\<lparr>status = 200, success = True, message = None, data = Some (TokenData k),
                cookie = None\<rparr>, d, None)"
    by (simp add: token_ok_def)
next
  assume a: "find_valid_token (u_id ru) (new_date env) d = None
            \<and> random_tokenId env \<notin> set (map t_id (tokens d))
            \<and> generateCode (random_ints env) \<notin> set (map t_code (tokens d))
            \<and> \<not> send_fails env"
  then have ins: "insert_token (new_token env (u_id ru)) (expire_email_tokens (u_id ru) d) =
           Some ((expire_email_tokens (u_id ru) d)
                   \<lparr>tokens := tokens (expire_email_tokens (u_id ru) d) @ [new_token env (u_id ru)]\<rparr>)"
    using issue_insert[OF assms(2)] by blast
  from a have "find_valid_token (u_id ru) (new_date env) d = None" by blast
  from send_result[OF assms this, of ] ins a
  have "sendEmailVerificationCode env req d =
                    (\<lparr>status = 200, success = True,
                      message = Some ''Verification code sent successfully'',
                      data = Some (TokenData (new_token env (u_id ru))), cookie = None\<rparr>,
                     (expire_email_tokens (u_id ru) d)
                   \<lparr>tokens := tokens (expire_email_tokens (u_id ru) d) @ [new_token env (u_id ru)]\<rparr>,
                     Some (verification_mail ''Email Verification Code'' cu
                             (generateCode (random_ints env))))"
    by (simp add: token_ok_def) (simp add: new_token_def)
  then show "\<exists>d'. sendEmailVerificationCode env req d =
                    (\<lparr>status = 200, success = True,
                      message = Some ''Verification code sent successfully'',
                      data = Some (TokenData (new_token env (u_id ru))), cookie = None\<rparr>,
                     d',
                     Some (verification_mail ''Email Verification Code'' cu
                             (generateCode (random_ints env))))
                 \<and> new_token env (u_id ru) \<in> set (tokens d')"
    by simp
next
  assume a: "random_tokenId env \<notin> set (map t_id (tokens d))
            \<and> generateCode (random_ints env) \<notin> set (map t_code (tokens d))
            \<and> \<not> send_fails env"
  then have ins: "insert_token (new_token env (u_id ru)) (expire_email_tokens (u_id ru) d) =
           Some ((expire_email_tokens (u_id ru) d)
                   \<lparr>tokens := tokens (expire_email_tokens (u_id ru) d) @ [new_token env (u_id ru)]\<rparr>)"
    using issue_insert[OF assms(2)] by blast
  from resend_result[OF assms, of env] ins a
  have "resendEmailVerificationCode env req d =
                    (\<lparr>status = 200, success = True, message = None,
                      data = Some (TokenData (new_token env (u_id ru))), cookie = None\<rparr>,
                     (expire_email_tokens (u_id ru) d)
                   \<lparr>tokens := tokens (expire_email_tokens (u_id ru) d) @ [new_token env (u_id ru)]\<rparr>,
                     Some (verification_mail ''Email Verification Code - Resent'' cu
                             (generateCode (random_ints env))))"
    by (simp add: token_ok_def) (simp add: new_token_def)
  then show "\<exists>d'. resendEmailVerificationCode env req d =
                    (\<lparr>status = 200, success = True, message = None,
                      data = Some (TokenData (new_token env (u_id ru))), cookie = None\<rparr>,
                     d',
                     Some (verification_mail ''Email Verification Code - Resent'' cu
                             (generateCode (random_ints env))))
                 \<and> new_token env (u_id ru) \<in> set (tokens d')"
    by simp
next
  show "t_code (new_token env (u_id ru)) = generateCode (random_ints env)"
    by (simp add: new_token_def)
next
  fix r d' m
  assume a: "(sendEmailVerificationCode env req d = (r, d', m)
                     \<or> resendEmailVerificationCode env req d = (r, d', m))
                   \<and> status r = 200"
  then have "sendEmailVerificationCode env req d = (r, d', m)
         \<or> resendEmailVerificationCode env req d = (r, d', m)" and "status r = 200"
    by blast+
  from ok_payload[OF this] assms(1)
  show "\<exists>k. data r = Some (TokenData k) \<and> k \<in> set (tokens d')
               \<and> t_userId k = u_id ru \<and> t_type k = EMAIL \<and> t_status k = PENDING
               \<and> (\<forall>mail. m = Some mail \<longrightarrow> mail_code mail = t_code k)"
    by auto
qed

theorem issued_code_witness:
  "sendEmailVerificationCode (env_at 1000 ''1'' 0) as_alice db_pending =
     (\<lparr>status = 200, success = True, message = None, data = Some (TokenData old_token),
       cookie = None\<rparr>, db_pending, None)
   \<and> t_code old_token = ''OLD123''
   \<and> fst (sendEmailVerificationCode (env_at 1000 ''1'' 0) as_alice db_alice) =
       \<lparr>status = 200, success = True, message = Some ''Verification code sent successfully'',
        data = Some (TokenData (new_token (env_at 1000 ''1'' 0) ''a1'')), cookie = None\<rparr>
   \<and> fst (resendEmailVerificationCode (env_at 1000 ''1'' 0) as_alice db_pending) =
       \<lparr>status = 200, success = True, message = None,
        data = Some (TokenData (new_token (env_at 1000 ''1'' 0) ''a1'')), cookie = None\<rparr>
   \<and> t_code (new_token (env_at 1000 ''1'' 0) ''a1'') = ''ABCDEF''"
proof -
  have u: "req_user as_alice = Some alice" "find_user_by_id (u_id alice) db_pending = Some alice"
    using find_alice by (simp_all add: as_alice_def alice_def)
  have ua: "find_user_by_id (u_id alice) db_alice = Some alice"
    by (simp add: find_user_by_id_def db_alice_def alice_def)
  have v: "find_valid_token (u_id alice) (new_date (env_at 1000 ''1'' 0)) db_pending = Some old_token"
    by (simp add: find_valid_token_def db_pending_def old_token_def active_def alice_def env_at_sel)
  have n: "find_valid_token (u_id alice) (new_date (env_at 1000 ''1'' 0)) db_alice = None
            \<and> random_tokenId (env_at 1000 ''1'' 0) \<notin> set (map t_id (tokens db_alice))
            \<and> generateCode (random_ints (env_at 1000 ''1'' 0)) \<notin> set (map t_code (tokens db_alice))
            \<and> \<not> send_fails (env_at 1000 ''1'' 0)"
    by (simp add: find_valid_token_def db_alice_def env_at_sel)
  have f: "random_tokenId (env_at 1000 ''1'' 0) \<notin> set (map t_id (tokens db_pending))
            \<and> generateCode (random_ints (env_at 1000 ''1'' 0)) \<notin> set (map t_code (tokens db_pending))
            \<and> \<not> send_fails (env_at 1000 ''1'' 0)"
    by (simp add: db_pending_def old_token_def env_at_sel generateCode_identity)
  note p = issued_code_in_response[OF u, of "env_at 1000 ''1'' 0"]
  note a = issued_code_in_response[OF u(1) ua, of "env_at 1000 ''1'' 0"]
  from p v have "sendEmailVerificationCode (env_at 1000 ''1'' 0) as_alice db_pending =
     (\<lparr>status = 200, success = True, message = None, data = Some (TokenData old_token),
       cookie = None\<rparr>, db_pending, None)"
    by blast
  moreover from a n
  have "\<exists>d'. sendEmailVerificationCode (env_at 1000 ''1'' 0) as_alice db_alice =
                    (\<lparr>status = 200, success = True,
                      message = Some ''Verification code sent successfully'',
                      data = Some (TokenData (new_token (env_at 1000 ''1'' 0) (u_id alice))),
                      cookie = None\<rparr>,
                     d',
                     Some (verification_mail ''Email Verification Code'' alice
                             (generateCode (random_ints (env_at 1000 ''1'' 0)))))
                 \<and> new_token (env_at 1000 ''1'' 0) (u_id alice) \<in> set (tokens d')"
    by blast
  then have "fst (sendEmailVerificationCode (env_at 1000 ''1'' 0) as_alice db_alice) =
       \<lparr>status = 200, success = True, message = Some ''Verification code sent successfully'',
        data = Some (TokenData (new_token (env_at 1000 ''1'' 0) ''a1'')), cookie = None\<rparr>"
    by (auto simp: alice_def)
  moreover from p f
  have "\<exists>d'. resendEmailVerificationCode (env_at 1000 ''1'' 0) as_alice db_pending =
                    (\<lparr>status = 200, success = True, message = None,
                      data = Some (TokenData (new_token (env_at 1000 ''1'' 0) (u_id alice))),
                      cookie = None\<rparr>,
                     d',
                     Some (verification_mail ''Email Verification Code - Resent'' alice
                             (generateCode (random_ints (env_at 1000 ''1'' 0)))))
                 \<and> new_token (env_at 1000 ''1'' 0) (u_id alice) \<in> set (tokens d')"
    by blast
  then have "fst (resendEmailVerificationCode (env_at 1000 ''1'' 0) as_alice db_pending) =
       \<lparr>status = 200, success = True, message = None,
        data = Some (TokenData (new_token (env_at 1000 ''1'' 0) ''a1'')), cookie = None\<rparr>"
    by (auto simp: alice_def)
  ultimately show ?thesis
    by (simp add: old_token_def new_token_1)
qed


subsection \<open>C10: the current user is read from the store\<close>

text \<open>
  Claim C10. For a request that carries a user object, \<^verbatim>\<open>getCurrentUser\<close> answers
  \<^verbatim>\<open>Unauthorized\<close> when the store has no row with that id; when it has one, the answer is
  200 with the full public projection of a stored row with that id; and the answer depends
  on the attached object through its id only, so a stale copy attached to the request does
  not show in the answer.
\<close>

theorem getCurrentUser_rereads_store:
  assumes "req_user req = Some ru"
  shows "(u_id ru \<notin> set (map u_id (users d)) \<longrightarrow> getCurrentUser req d = unauthorized)
       \<and> (u_id ru \<in> set (map u_id (users d)) \<longrightarrow>
            (\<exists>cu \<in> set (users d). u_id cu = u_id ru \<and>
               getCurrentUser req d =
                 \<lparr>status = 200, success = True, message = None,
                  data = Some (UserData (public_user cu)), cookie = None\<rparr>))
       \<and> (\<forall>ru'. u_id ru' = u_id ru \<longrightarrow>
            getCurrentUser (req\<lparr>req_user := Some ru'\<rparr>) d = getCurrentUser req d)"
proof (intro conjI impI allI)
  assume "u_id ru \<notin> set (map u_id (users d))"
  then have "find_user_by_id (u_id ru) d = None"
    by (simp add: find_user_by_id_None)
  with assms show "getCurrentUser req d = unauthorized"
    by (simp add: getCurrentUser_def)
next
  assume "u_id ru \<in> set (map u_id (users d))"
  then obtain cu where cu: "find_user_by_id (u_id ru) d = Some cu"
    by (cases "find_user_by_id (u_id ru) d") (auto simp: find_user_by_id_None)
  then have "cu \<in> set (users d)" "u_id cu = u_id ru"
    by (auto simp: find_user_by_id_def find_Some_iff)
  moreover from assms cu have "getCurrentUser req d =
       \<lparr>status = 200, success = True, message = None,
        data = Some (UserData (public_user cu)), cookie = None\<rparr>"
    by (simp add: getCurrentUser_def user_ok_def)
  ultimately show "\<exists>cu \<in> set (users d). u_id cu = u_id ru \<and>
               getCurrentUser req d =
                 \<lparr>status = 200, success = True, message = None,
                  data = Some (UserData (public_user cu)), cookie = None\<rparr>"
    by blast
next
  fix ru' :: user
  assume "u_id ru' = u_id ru"
  with assms show "getCurrentUser (req\<lparr>req_user := Some ru'\<rparr>) d = getCurrentUser req d"
    by (simp add: getCurrentUser_def)
qed

theorem getCurrentUser_rereads_witness:
  "getCurrentUser as_alice db_alice_verified =
     \<lparr>status = 200, success = True, message = None,
      data = Some (UserData (public_user alice_verified)), cookie = None\<rparr>
   \<and> v_emailVerified (public_user alice_verified) \<and> \<not> u_emailVerified alice
   \<and> getCurrentUser as_alice db_empty = unauthorized"
proof -
  have u: "req_user as_alice = Some alice" by (simp add: as_alice_def)
  have a: "u_id alice \<in> set (map u_id (users db_alice_verified))"
    by (simp add: db_alice_verified_def alice_verified_def)
  have b: "u_id alice \<notin> set (map u_id (users db_empty))"
    by (simp add: db_empty_def)
  from getCurrentUser_rereads_store[OF u, of db_alice_verified] a
  have "getCurrentUser as_alice db_alice_verified =
     \<lparr>status = 200, success = True, message = None,
      data = Some (UserData (public_user alice_verified)), cookie = None\<rparr>"
    by (auto simp: db_alice_verified_def)
  moreover from getCurrentUser_rereads_store[OF u, of db_empty] b
  have "getCurrentUser as_alice db_empty = unauthorized" by blast
  ultimately show ?thesis
    by (simp add: public_user_def alice_verified_def alice_def)
qed


subsection \<open>C5: the two failures of sign-in\<close>

text \<open>
  Claim C5, as the handler has it. Take two runs of \<^verbatim>\<open>signIn\<close> with non-empty email and
  password and an email without the code unit U+0000: in the first the email is registered
  to no user, in the second the email is registered and the password matches no user
  registered with it. Both runs answer with the same response, 401 \<^verbatim>\<open>Unauthorized\<close>, and
  both leave their store unchanged.
\<close>

theorem signIn_failures_indistinguishable:
  assumes "email1 \<noteq> []" "password1 \<noteq> []" "email2 \<noteq> []" "password2 \<noteq> []"
    and accepted: "storable email1" "storable email2"
    and unknown: "email1 \<notin> set (map u_email (users d1))"
    and known: "email2 \<in> set (map u_email (users d2))"
    and mismatch: "\<forall>u \<in> set (users d2). u_email u = email2 \<longrightarrow>
                     \<not> bcrypt_compare env2 password2 (u_password u)"
  shows "signIn env1 req1 email1 password1 rememberMe1 d1 =
           (\<lparr>status = 401, success = False, message = Some ''Unauthorized'', data = None,
             cookie = None\<rparr>, d1)
       \<and> signIn env2 req2 email2 password2 rememberMe2 d2 =
           (\<lparr>status = 401, success = False, message = Some ''Unauthorized'', data = None,
             cookie = None\<rparr>, d2)
       \<and> fst (signIn env1 req1 email1 password1 rememberMe1 d1)
           = fst (signIn env2 req2 email2 password2 rememberMe2 d2)"
proof -
  from unknown have "find_user_by_email email1 d1 = None"
    by (simp add: find_user_by_email_None)
  with assms(1,2) accepted(1)
  have one: "signIn env1 req1 email1 password1 rememberMe1 d1 = (unauthorized, d1)"
    by (simp add: signIn_def select_user_by_email_def)
  from known obtain u where u: "find_user_by_email email2 d2 = Some u"
    by (cases "find_user_by_email email2 d2") (auto simp: find_user_by_email_None)
  with mismatch have "\<not> bcrypt_compare env2 password2 (u_password u)"
    by (auto dest: find_user_by_email_Some)
  with u assms(3,4) accepted(2)
  have two: "signIn env2 req2 email2 password2 rememberMe2 d2 = (unauthorized, d2)"
    by (simp add: signIn_def select_user_by_email_def)
  from one two show ?thesis by (simp add: unauthorized_def failure_def)
qed

theorem signIn_failures_witness:
  "signIn (env_at 1000 ''1'' 0) anonymous ''b@x.com'' ''secret1'' False db_alice
     = (unauthorized, db_alice)
   \<and> signIn (env_at 1000 ''1'' 0) anonymous ''a@x.com'' ''wrong'' False db_alice
     = (unauthorized, db_alice)
   \<and> ''b@x.com'' \<notin> set (map u_email (users db_alice))
   \<and> ''a@x.com'' \<in> set (map u_email (users db_alice))"
proof -
  have a: "''b@x.com'' \<notin> set (map u_email (users db_alice))"
    and b: "''a@x.com'' \<in> set (map u_email (users db_alice))"
    and c: "\<forall>u \<in> set (users db_alice). u_email u = ''a@x.com'' \<longrightarrow>
              \<not> bcrypt_compare (env_at 1000 ''1'' 0) ''wrong'' (u_password u)"
    and t: "storable ''b@x.com''" "storable ''a@x.com''"
    by (simp_all add: db_alice_def alice_def env_at_sel storable_def)
  from signIn_failures_indistinguishable[OF _ _ _ _ t a b c,
      of "''secret1''" "env_at 1000 ''1'' 0" anonymous False anonymous False] a b
  show ?thesis by (simp add: unauthorized_def failure_def)
qed

text \<open>
  An email with the code unit U+0000 is registered to no user, and its lookup is refused
  by the store: the answer is the 500 response of the \<^verbatim>\<open>catch\<close> branch, not the 401 that a
  wrong password gets.
\<close>

theorem signIn_nul_email_counterexample:
  "nul_email \<noteq> [] \<and> nul_email \<notin> set (map u_email (users db_alice))
   \<and> signIn (env_at 1000 ''1'' 0) anonymous nul_email ''secret1'' False db_alice
       = (internal_server_error, db_alice)
   \<and> signIn (env_at 1000 ''1'' 0) anonymous ''a@x.com'' ''wrong'' False db_alice
       = (unauthorized, db_alice)
   \<and> status internal_server_error = 500 \<and> status unauthorized = 401"
  by (simp add: signIn_def select_user_by_email_def storable_def nul_email_def
      find_user_by_email_def db_alice_def alice_def env_at_sel)


subsection \<open>C8: the lifetime of a session\<close>

text \<open>
  Claim C8. Every session that \<^verbatim>\<open>signUp\<close> adds to the store expires 7 days after the
  clock reading of the call, and a 201 answer comes with exactly one added session. Every
  session that \<^verbatim>\<open>signIn\<close> adds expires 7 days after the clock reading when \<^verbatim>\<open>rememberMe\<close>
  is true and 24 hours after it otherwise, and a 200 answer comes with such a session.
  Times are in milliseconds.
\<close>

theorem session_ttl_policy:
  assumes "signUp env req firstName lastName email phone password d = (r, d')"
    and "signIn env2 req2 email2 password2 rememberMe d0 = (r2, d2)"
  shows "(\<forall>s \<in> set (sessions d'). s \<in> set (sessions d)
            \<or> s_expiresAt s = date_now env + 7 * 24 * 60 * 60 * 1000)
       \<and> (status r = 201 \<longrightarrow>
            (\<exists>s. sessions d' = sessions d @ [s] \<and> s_token s = random_sessionToken env
               \<and> s_expiresAt s = date_now env + 7 * 24 * 60 * 60 * 1000))
       \<and> (\<forall>s \<in> set (sessions d2). s \<in> set (sessions d0)
            \<or> s_expiresAt s = date_now env2
                 + (if rememberMe then 7 * 24 * 60 * 60 * 1000 else 24 * 60 * 60 * 1000))
       \<and> (status r2 = 200 \<longrightarrow>
            (\<exists>s \<in> set (sessions d2). s_token s = random_sessionToken env2
               \<and> s_expiresAt s = date_now env2
                 + (if rememberMe then 7 * 24 * 60 * 60 * 1000 else 24 * 60 * 60 * 1000)))"
proof -
  from signUp_sessions[OF assms(1)]
  have up: "(\<forall>s \<in> set (sessions d'). s \<in> set (sessions d)
            \<or> s_expiresAt s = date_now env + 7 * 24 * 60 * 60 * 1000)
       \<and> (status r = 201 \<longrightarrow>
            (\<exists>s. sessions d' = sessions d @ [s] \<and> s_token s = random_sessionToken env
               \<and> s_expiresAt s = date_now env + 7 * 24 * 60 * 60 * 1000))"
    by (auto simp: new_session_def)
  from signIn_sessions[OF assms(2)]
  have "(\<forall>s \<in> set (sessions d2). s \<in> set (sessions d0)
            \<or> s_expiresAt s = date_now env2
                 + (if rememberMe then 7 * 24 * 60 * 60 * 1000 else 24 * 60 * 60 * 1000))
       \<and> (status r2 = 200 \<longrightarrow>
            (\<exists>s \<in> set (sessions d2). s_token s = random_sessionToken env2
               \<and> s_expiresAt s = date_now env2
                 + (if rememberMe then 7 * 24 * 60 * 60 * 1000 else 24 * 60 * 60 * 1000)))"
    by (auto simp: new_session_def delete_expired_sessions_def)
  with up show ?thesis by blast
qed

theorem session_ttl_witness:
  "status (fst (signUp (env_at 1000 ''2'' 0) anonymous ''C'' ''D'' ''c@y.org'' ''+1666''
                  ''secret2'' db_alice)) = 201
   \<and> map s_expiresAt (sessions (snd (signUp (env_at 1000 ''2'' 0) anonymous ''C'' ''D''
             ''c@y.org'' ''+1666'' ''secret2'' db_alice))) = [1000 + 604800000]
   \<and> map s_expiresAt (sessions (snd (signIn (env_at 1000 ''3'' 0) anonymous ''a@x.com''
             ''secret1'' True db_alice))) = [1000 + 604800000]
   \<and> map s_expiresAt (sessions (snd (signIn (env_at 1000 ''3'' 0) anonymous ''a@x.com''
             ''secret1'' False db_alice))) = [1000 + 86400000]"
  using session_ttl_policy[OF signUp_carol signIn_alice[of True]]
    session_ttl_policy[OF signUp_carol signIn_alice[of False]]
  by (simp add: signUp_carol signIn_alice user_ok_def)

subsection \<open>C2: verification without a matching token\<close>

text \<open>
  Claim C2, as the handler has it. Let the request carry a user whose row exists and let
  the code have six characters, all letters or digits. If no stored token has this owner,
  type \<^verbatim>\<open>EMAIL\<close>, the upper-cased code, status \<^verbatim>\<open>PENDING\<close> and \<^verbatim>\<open>expiresAt\<close> after the clock
  reading (a token still \<^verbatim>\<open>PENDING\<close> after its \<^verbatim>\<open>expiresAt\<close> is therefore no match), then
  the handler leaves the store unchanged, so \<^verbatim>\<open>emailVerified\<close> and every token stay as they
  were, and answers 500 \<^verbatim>\<open>Internal Server Error\<close>, the response of its \<^verbatim>\<open>catch\<close> branch: the
  outcome is \<^verbatim>\<open>Internal\<close>.
\<close>

theorem verify_without_match:
  assumes "req_user req = Some ru" and "find_user_by_id (u_id ru) d = Some cu"
    and "length code = 6" and "alnum_test code"
    and "\<forall>k \<in> set (tokens d).
           \<not> (t_userId k = u_id ru \<and> t_type k = EMAIL \<and> t_code k = toUpperCase code
              \<and> t_status k = PENDING \<and> new_date env < t_expiresAt k)"
  shows "verifyEmailVerificationCode env req code d =
           (\<lparr>status = 500, success = False, message = Some ''Internal Server Error'',
             data = None, cookie = None\<rparr>, d)
       \<and> spec_outcome (fst (verifyEmailVerificationCode env req code d)) = Some Internal"
proof -
  from assms(5) have "find_valid_token_with_code (u_id ru) (toUpperCase code) (new_date env) d = None"
    by (auto simp: find_valid_token_with_code_None active_def)
  with assms(1-4)
  have "verifyEmailVerificationCode env req code d = (internal_server_error, d)"
    by (rule verify_unmatched)
  then show ?thesis
    by (simp add: spec_outcome_internal) (simp add: internal_server_error_def failure_def)
qed

theorem verify_without_match_witness:
  "verifyEmailVerificationCode (env_at 1000 ''1'' 0) as_alice ''zzz999'' db_pending =
     (\<lparr>status = 500, success = False, message = Some ''Internal Server Error'',
       data = None, cookie = None\<rparr>, db_pending)"
proof -
  have u: "req_user as_alice = Some alice" "find_user_by_id (u_id alice) db_pending = Some alice"
    using find_alice by (simp_all add: as_alice_def alice_def)
  have c: "length ''zzz999'' = 6" "alnum_test ''zzz999''"
    by (simp_all add: alnum_test_def is_alnum_def)
  have n: "\<forall>k \<in> set (tokens db_pending).
           \<not> (t_userId k = u_id alice \<and> t_type k = EMAIL \<and> t_code k = toUpperCase ''zzz999''
              \<and> t_status k = PENDING \<and> new_date (env_at 1000 ''1'' 0) < t_expiresAt k)"
    by (simp add: db_pending_def old_token_def toUpperCase_def)
  from verify_without_match[OF u c n] show ?thesis by simp
qed

text \<open>
  The outcome is not \<^verbatim>\<open>Rejected\<close>: for a token that is still \<^verbatim>\<open>PENDING\<close> at time 1000 and
  expired at time 500, the answer to its own code is the 500 response.
\<close>

theorem verify_elapsed_counterexample:
  "t_status elapsed_token = PENDING
   \<and> t_expiresAt elapsed_token < new_date (env_at 1000 ''1'' 0)
   \<and> tokens db_elapsed = [elapsed_token]
   \<and> verifyEmailVerificationCode (env_at 1000 ''1'' 0) as_alice ''old123'' db_elapsed
       = (internal_server_error, db_elapsed)
   \<and> spec_outcome (fst (verifyEmailVerificationCode (env_at 1000 ''1'' 0) as_alice ''old123''
          db_elapsed)) = Some Internal
   \<and> spec_outcome (fst (verifyEmailVerificationCode (env_at 1000 ''1'' 0) as_alice ''old123''
          db_elapsed)) \<noteq> Some Rejected"
proof -
  have u: "req_user as_alice = Some alice" "find_user_by_id (u_id alice) db_elapsed = Some alice"
    using find_alice_elapsed by (simp_all add: as_alice_def alice_def)
  have n: "find_valid_token_with_code (u_id alice) (toUpperCase ''old123'')
             (new_date (env_at 1000 ''1'' 0)) db_elapsed = None"
    by (simp add: find_valid_token_with_code_def toUpperCase_old env_at_sel db_elapsed_def
        elapsed_token_def active_def)
  have v: "verifyEmailVerificationCode (env_at 1000 ''1'' 0) as_alice ''old123'' db_elapsed
       = (internal_server_error, db_elapsed)"
    using u _ alnum_old(1) n by (rule verify_unmatched) simp
  show ?thesis
    by (simp add: v spec_outcome_internal) (simp add: elapsed_token_def env_at_sel db_elapsed_def)
qed

subsection \<open>C4: a resend supersedes\<close>

text \<open>
  Claim C4, as the handler has it. Let the request carry a user whose row exists, and let
  the generated token id and code be stored for no token yet (the store refuses the insert
  otherwise). Whatever tokens the user holds, valid ones included, after
  \<^verbatim>\<open>resendEmailVerificationCode\<close> the token table is the old one with every \<^verbatim>\<open>EMAIL\<close> token
  of the user marked \<^verbatim>\<open>EXPIRED\<close>, followed by one new \<^verbatim>\<open>PENDING\<close> token with the generated
  code and \<^verbatim>\<open>expiresAt\<close> 10 minutes (600000 ms) after the clock reading. Verifying, at any
  later clock reading, a well-shaped code that is the code of a token stored before the
  resend finds no match: the answer is the 500 response and the store stays unchanged.
\<close>

theorem resend_supersedes:
  assumes "req_user req = Some ru" and "find_user_by_id (u_id ru) d = Some cu"
    and "random_tokenId env \<notin> set (map t_id (tokens d))"
    and "generateCode (random_ints env) \<notin> set (map t_code (tokens d))"
    and "resendEmailVerificationCode env req d = (r, d', m)"
  shows "tokens d' =
           map (\<lambda>k. if t_userId k = u_id ru \<and> t_type k = EMAIL
                     then k\<lparr>t_status := EXPIRED\<rparr> else k) (tokens d)
           @ [\<lparr>t_id = random_tokenId env, t_userId = u_id ru,
                t_code = generateCode (random_ints env), t_type = EMAIL, t_status = PENDING,
                t_createdAt = db_now env, t_updatedAt = db_now env,
                t_expiresAt = date_now env + 10 * 60 * 1000\<rparr>]
       \<and> (\<forall>env2 code. length code = 6 \<and> alnum_test code
              \<and> toUpperCase code \<in> set (map t_code (tokens d)) \<longrightarrow>
            verifyEmailVerificationCode env2 req code d' = (internal_server_error, d'))"
proof -
  let ?u = "u_id ru"
  let ?d1 = "expire_email_tokens ?u d"
  let ?k = "new_token env ?u"
  from assms(2) have "find_user_by_id ?u d \<noteq> None" by simp
  then have fk: "t_userId ?k \<in> set (map u_id (users d))"
    by (simp add: find_user_by_id_None new_token_def)
  from assms(3,4) have fresh: "t_id ?k \<notin> set (map t_id (tokens d))"
    "t_code ?k \<notin> set (map t_code (tokens d))"
    by (simp_all add: new_token_def)
  have ins: "insert_token ?k ?d1 = Some (?d1\<lparr>tokens := tokens ?d1 @ [?k]\<rparr>)"
    by (rule insert_token_fresh[OF fresh fk])
  with assms(5) resend_result[OF assms(1,2), of env]
  have d': "d' = ?d1\<lparr>tokens := tokens ?d1 @ [?k]\<rparr>" by simp
  then have toks: "tokens d' = tokens ?d1 @ [?k]" by simp
  have users: "users d' = users d" by (simp add: d' expire_email_tokens_users)
  have first: "tokens d' =
           map (\<lambda>k. if t_userId k = u_id ru \<and> t_type k = EMAIL
                     then k\<lparr>t_status := EXPIRED\<rparr> else k) (tokens d)
           @ [\<lparr>t_id = random_tokenId env, t_userId = u_id ru,
                t_code = generateCode (random_ints env), t_type = EMAIL, t_status = PENDING,
                t_createdAt = db_now env, t_updatedAt = db_now env,
                t_expiresAt = date_now env + 10 * 60 * 1000\<rparr>]"
    by (simp add: toks expire_email_tokens_def new_token_def)
  have second: "verifyEmailVerificationCode env2 req code d' = (internal_server_error, d')"
    if c: "length code = 6 \<and> alnum_test code \<and> toUpperCase code \<in> set (map t_code (tokens d))"
    for env2 :: env and code
  proof -
    from c fresh(2) have "t_code ?k \<noteq> toUpperCase code"
      by auto
    then have "\<not> (t_code ?k = toUpperCase code \<and> active ?u EMAIL (new_date env2) ?k)"
      by simp
    with no_match_after_expire[of "toUpperCase code" ?u "new_date env2" d]
    have none: "find_valid_token_with_code ?u (toUpperCase code) (new_date env2) d' = None"
      unfolding find_valid_token_with_code_def toks by (rule find_append_None)
    from assms(2) find_user_by_id_cong[OF users, of ?u]
    have row: "find_user_by_id ?u d' = Some cu"
      by simp
    from c have shape: "length code = 6" "alnum_test code" by simp_all
    show ?thesis
      by (rule verify_unmatched[OF assms(1) row shape none])
  qed
  from first second show ?thesis by blast
qed

theorem resend_supersedes_witness:
  "tokens (fst (snd (resendEmailVerificationCode (env_at 1000 ''1'' 0) as_alice db_pending)))
     = [old_token\<lparr>t_status := EXPIRED\<rparr>, new_token (env_at 1000 ''1'' 0) ''a1'']
   \<and> t_status old_token = PENDING \<and> t_code old_token = ''OLD123''
   \<and> verifyEmailVerificationCode (env_at 2000 ''2'' 6) as_alice ''OLD123''
         (fst (snd (resendEmailVerificationCode (env_at 1000 ''1'' 0) as_alice db_pending)))
       = (internal_server_error,
          fst (snd (resendEmailVerificationCode (env_at 1000 ''1'' 0) as_alice db_pending)))"
proof -
  have u: "req_user as_alice = Some alice" "find_user_by_id (u_id alice) db_pending = Some alice"
    using find_alice by (simp_all add: as_alice_def alice_def)
  have f: "random_tokenId (env_at 1000 ''1'' 0) \<notin> set (map t_id (tokens db_pending))"
    "generateCode (random_ints (env_at 1000 ''1'' 0)) \<notin> set (map t_code (tokens db_pending))"
    by (simp_all add: env_at_sel db_pending_def old_token_def generateCode_identity)
  have c: "length ''OLD123'' = 6 \<and> alnum_test ''OLD123''
         \<and> toUpperCase ''OLD123'' \<in> set (map t_code (tokens db_pending))"
    by (simp add: alnum_old toUpperCase_OLD db_pending_def old_token_def)
  from resend_supersedes[OF u f resend_on_pending] c
  have "verifyEmailVerificationCode (env_at 2000 ''2'' 6) as_alice ''OLD123''
          \<lparr>users = [alice], sessions = [],
           tokens = [old_token\<lparr>t_status := EXPIRED\<rparr>, new_token (env_at 1000 ''1'' 0) ''a1'']\<rparr>
        = (internal_server_error,
          \<lparr>users = [alice], sessions = [],
           tokens = [old_token\<lparr>t_status := EXPIRED\<rparr>, new_token (env_at 1000 ''1'' 0) ''a1'']\<rparr>)"
    by blast
  then show ?thesis
    by (simp add: resend_on_pending) (simp add: old_token_def)
qed

text \<open>
  The answer to the old code is the outcome \<^verbatim>\<open>Internal\<close>, not \<^verbatim>\<open>Rejected\<close>. And a resend
  whose generated code is already stored expires the prior token and inserts none.
\<close>

theorem resend_supersedes_counterexample:
  "spec_outcome (fst (verifyEmailVerificationCode (env_at 2000 ''2'' 6) as_alice ''OLD123''
       (fst (snd (resendEmailVerificationCode (env_at 1000 ''1'' 0) as_alice db_pending)))))
     = Some Internal
   \<and> spec_outcome (fst (verifyEmailVerificationCode (env_at 2000 ''2'' 6) as_alice ''OLD123''
       (fst (snd (resendEmailVerificationCode (env_at 1000 ''1'' 0) as_alice db_pending)))))
     \<noteq> Some Rejected
   \<and> resendEmailVerificationCode (env_at 1000 ''1'' 0) as_alice db_collision =
       (internal_server_error,
        \<lparr>users = [alice], sessions = [], tokens = [colliding_token\<lparr>t_status := EXPIRED\<rparr>]\<rparr>,
        None)
   \<and> t_code colliding_token = generateCode (random_ints (env_at 1000 ''1'' 0))"
  by (simp add: resend_on_pending verify_old_after_resend spec_outcome_internal
      resend_on_collision)
     (simp add: colliding_token_def env_at_sel generateCode_identity)


subsection \<open>C6: a registered phone at sign-up\<close>

text \<open>
  Claim C6 at the input where the handler departs from it: a sign-up with an email that
  no user has and the phone of a registered user. The handler checks the email only; the
  store refuses the insert by \<^verbatim>\<open>users_phone_unique\<close>, and the answer is 500
  \<^verbatim>\<open>Internal Server Error\<close>, not 409 \<^verbatim>\<open>Conflict\<close>. No user is added.
\<close>

theorem signUp_registered_phone:
  "''+1555'' \<in> set (map u_phone (users db_alice))
   \<and> ''c@y.org'' \<notin> set (map u_email (users db_alice))
   \<and> signUp (env_at 1000 ''2'' 0) anonymous ''C'' ''D'' ''c@y.org'' ''+1555'' ''secret2'' db_alice
       = (internal_server_error, db_alice)
   \<and> status internal_server_error = 500 \<and> status conflict = 409"
  by (simp add: signUp_def emailRegex_example select_user_by_email_def storable_def
      find_user_by_email_def db_alice_def alice_def env_at_sel insert_user_def Let_def)


subsection \<open>C7: the recipient of the verification mail\<close>

text \<open>
  Claim C7 at an input where the handler departs from it: the user's address is
  \<^verbatim>\<open>a@x.com\<close>, and both \<^verbatim>\<open>sendEmailVerificationCode\<close> and \<^verbatim>\<open>resendEmailVerificationCode\<close>
  address the mail with her code to the fixed address written in the handler.
\<close>

theorem verification_mail_recipient:
  "map_option mail_to (snd (snd (sendEmailVerificationCode (env_at 1000 ''1'' 0) as_alice db_alice)))
     = Some ''bigtexascompsci@proton.me''
   \<and> map_option mail_to
       (snd (snd (resendEmailVerificationCode (env_at 1000 ''1'' 0) as_alice db_pending)))
     = Some ''bigtexascompsci@proton.me''
   \<and> map_option u_email (req_user as_alice) = Some ''a@x.com''
   \<and> ''bigtexascompsci@proton.me'' \<noteq> ''a@x.com''"
  by (simp add: send_on_alice resend_on_pending verification_mail_def)
     (simp add: as_alice_def alice_def)

end
